theory Spec2Isabelle
  imports Main "HOL-Library.Sublist"
begin

section \<open>Python string primitives used by DvDRipper.py\<close>

text \<open>
  A Python \<open>str\<close> is modelled as a \<open>string\<close>: each \<open>char\<close> stands for the code point
  of the same number, so the model covers text whose code points are below 256.
  The character classes below are the ones CPython uses on that range.
\<close>

definition py_isspace :: "char \<Rightarrow> bool" where
  \<comment> \<open>\<open>str.isspace\<close> on one character: what \<open>str.strip()\<close> removes\<close>
  "py_isspace c = (c \<in> {CHR 0x09, CHR 0x0A, CHR 0x0B, CHR 0x0C, CHR 0x0D,
                          CHR 0x1C, CHR 0x1D, CHR 0x1E, CHR 0x1F, CHR 0x20,
                          CHR 0x85, CHR 0xA0})"

definition py_islinebreak :: "char \<Rightarrow> bool" where
  \<comment> \<open>the line boundaries of \<open>str.splitlines\<close>\<close>
  "py_islinebreak c = (c \<in> {CHR 0x0A, CHR 0x0B, CHR 0x0C, CHR 0x0D,
                              CHR 0x1C, CHR 0x1D, CHR 0x1E, CHR 0x85})"

definition py_strip :: "string \<Rightarrow> string" where
  \<comment> \<open>\<open>s.strip()\<close>\<close>
  "py_strip s = rev (dropWhile py_isspace (rev (dropWhile py_isspace s)))"

definition py_strip_chars :: "string \<Rightarrow> string \<Rightarrow> string" where
  \<comment> \<open>\<open>s.strip(chars)\<close>\<close>
  "py_strip_chars chars s =
     rev (dropWhile (\<lambda>c. c \<in> set chars) (rev (dropWhile (\<lambda>c. c \<in> set chars) s)))"

fun splitlines_from :: "string \<Rightarrow> string \<Rightarrow> string list" where
  \<comment> \<open>\<open>cur\<close> is the line read so far; a final line is kept only when it is not empty;
      a carriage return followed by a line feed is one boundary\<close>
  "splitlines_from cur [] = (if cur = [] then [] else [cur])"
| "splitlines_from cur [c] =
     (if py_islinebreak c then [cur] else [cur @ [c]])"
| "splitlines_from cur (c # d # cs) =
     (if c = CHR 0x0D \<and> d = CHR 0x0A then cur # splitlines_from [] cs
      else if py_islinebreak c then cur # splitlines_from [] (d # cs)
      else splitlines_from (cur @ [c]) (d # cs))"

definition py_splitlines :: "string \<Rightarrow> string list" where
  \<comment> \<open>\<open>s.splitlines()\<close>\<close>
  "py_splitlines s = splitlines_from [] s"

fun split_from :: "char \<Rightarrow> string \<Rightarrow> string \<Rightarrow> string list" where
  "split_from sep cur [] = [cur]"
| "split_from sep cur (c # cs) =
     (if c = sep then cur # split_from sep [] cs else split_from sep (cur @ [c]) cs)"

definition py_split :: "char \<Rightarrow> string \<Rightarrow> string list" where
  \<comment> \<open>\<open>s.split(sep)\<close> for a separator of one character\<close>
  "py_split sep s = split_from sep [] s"

function py_remove :: "string \<Rightarrow> string \<Rightarrow> string" where
  \<comment> \<open>\<open>s.replace(old, "")\<close>: the occurrences of \<open>old\<close> are found from left to right,
      without overlap; an empty \<open>old\<close> leaves \<open>s\<close> as it is\<close>
  "py_remove old [] = []"
| "py_remove old (c # cs) =
     (if old \<noteq> [] \<and> prefix old (c # cs)
      then py_remove old (drop (length old) (c # cs))
      else c # py_remove old cs)"
  by pat_completeness auto
termination
  by (relation "measure (\<lambda>(old, s). length s)") (auto simp: less_Suc_eq_le neq_Nil_conv)

definition py_isdigit :: "char \<Rightarrow> bool" where
  "py_isdigit c = (c \<in> set ''0123456789'')"

definition int_isspace :: "char \<Rightarrow> bool" where
  \<comment> \<open>the white space \<open>int()\<close> accepts around a literal: the ASCII white space and, once
      the text is brought to ASCII, the two other spaces below 256; the separators
      \<open>0x1C\<close> to \<open>0x1F\<close> are not among them\<close>
  "int_isspace c = (c \<in> {CHR 0x09, CHR 0x0A, CHR 0x0B, CHR 0x0C, CHR 0x0D, CHR 0x20,
                           CHR 0x85, CHR 0xA0})"

definition MAX_STR_DIGITS :: nat where
  \<comment> \<open>the interpreter's default limit on the digits of an integer literal\<close>
  "MAX_STR_DIGITS = 4300"

definition digits_value :: "string \<Rightarrow> int" where
  "digits_value ds = foldl (\<lambda>a c. 10 * a + (int (of_char c) - 48)) 0 ds"

fun underscores_ok :: "string \<Rightarrow> bool" where
  \<comment> \<open>no underscore at either end of the digits and no two in a row\<close>
  "underscores_ok [] = False"
| "underscores_ok [c] = (c \<noteq> CHR ''_'')"
| "underscores_ok (c # d # cs) =
     (c \<noteq> CHR ''_'' \<and> (d = CHR ''_'' \<longrightarrow> cs \<noteq> [] \<and> hd cs \<noteq> CHR ''_'') \<and>
      underscores_ok (if d = CHR ''_'' then cs else d # cs))"

definition py_int :: "string \<Rightarrow> int option" where
  \<comment> \<open>\<open>int(s)\<close> in base 10; \<open>None\<close> stands for \<open>ValueError\<close>\<close>
  "py_int s =
     (let t = dropWhile int_isspace s;
          negative = (t \<noteq> [] \<and> hd t = CHR ''-'');
          u = (if t \<noteq> [] \<and> (hd t = CHR ''+'' \<or> hd t = CHR ''-'') then tl t else t);
          body = takeWhile (\<lambda>c. py_isdigit c \<or> c = CHR ''_'') u;
          rest = dropWhile (\<lambda>c. py_isdigit c \<or> c = CHR ''_'') u;
          ds = filter py_isdigit body
      in if \<not> underscores_ok body \<or> dropWhile int_isspace rest \<noteq> [] \<or>
            MAX_STR_DIGITS < length ds
         then None
         else Some (if negative then - digits_value ds else digits_value ds))"

section \<open>Title selection: \<open>get_largest_title\<close>\<close>

datatype exn = Exception string | OSError string | UnicodeDecodeError string

fun str_exn :: "exn \<Rightarrow> string" where
  \<comment> \<open>\<open>str(e)\<close>\<close>
  "str_exn (Exception m) = m"
| "str_exn (OSError m) = m"
| "str_exn (UnicodeDecodeError m) = m"

record completed_process =
  returncode :: int
  stdout :: string

text \<open>
  \<open>largest_title_index\<close> starts as the integer \<open>-1\<close> and later holds the text of a
  title index, so the variable has one of two shapes.
\<close>

datatype py_index = IntIndex int | StrIndex string

definition tinfo_lines_of :: "string \<Rightarrow> string list" where
  \<comment> \<open>line 47: the stripped lines that start with \<open>TINFO:\<close>\<close>
  "tinfo_lines_of disc_info_output =
     map py_strip (filter (\<lambda>line. prefix ''TINFO:'' (py_strip line))
                          (py_splitlines disc_info_output))"

definition scan_line :: "py_index \<times> int \<Rightarrow> string \<Rightarrow> py_index \<times> int" where
  \<comment> \<open>lines 52 to 64: the body of the loop, on the pair
      \<open>(largest_title_index, largest_title_size)\<close>\<close>
  "scan_line st line =
     (let parts = py_split CHR '','' line in
      if 4 \<le> length parts then
        let title_index_str = py_strip (py_remove ''TINFO:'' (parts ! 0));
            info_type = py_strip (parts ! 1)
        in if info_type = ''11'' then
             let size_str = py_strip_chars [CHR 0x22] (py_strip (parts ! 3));
                 file_size = (case py_int size_str of Some n \<Rightarrow> n | None \<Rightarrow> 0)
             in if snd st < file_size then (StrIndex title_index_str, file_size) else st
           else st
      else st)"

definition scan_lines :: "string list \<Rightarrow> py_index \<times> int" where
  \<comment> \<open>lines 48 to 64: the loop from its initial state\<close>
  "scan_lines tinfo_lines = foldl scan_line (IntIndex (- 1), 0) tinfo_lines"

definition info_command :: "string \<Rightarrow> string list" where
  \<comment> \<open>line 36: the command line of the disc-info query\<close>
  "info_command drive_letter =
     [''./makemkvcon64.exe'', ''-r'', ''info'', ''dev:'' @ drive_letter @ '':'']"

definition get_largest_title ::
  "(string list \<Rightarrow> exn + completed_process) \<Rightarrow> string \<Rightarrow> exn + py_index \<times> int" where
  \<comment> \<open>\<open>subprocess_run\<close> is the environment: what \<open>subprocess.run\<close> does on a command
      line, an exception or a completed process\<close>
  "get_largest_title subprocess_run drive_letter =
     (case subprocess_run (info_command drive_letter) of
        Inl e \<Rightarrow> Inl (Exception (''Error running MakeMKV: '' @ str_exn e))
      | Inr result \<Rightarrow>
          if returncode result \<noteq> 0 \<or> stdout result = [] then
            Inl (Exception
              ''MakeMKV returned an error. Please ensure MakeMKV is installed and the DVD is readable.'')
          else
            let (largest_title_index, largest_title_size) =
                  scan_lines (tinfo_lines_of (stdout result))
            in if largest_title_index = IntIndex (- 1) then
                 Inl (Exception ''Could not find any titles on the DVD.'')
               else Inr (largest_title_index, largest_title_size))"

text \<open>
  The loop body reads a line through the four expressions below; they are named so that
  the properties of the selection can speak of the records of a disc.
\<close>

definition is_size_record :: "string \<Rightarrow> bool" where
  \<comment> \<open>lines 53 and 56: at least four fields, the second one the code \<open>11\<close>\<close>
  "is_size_record line =
     (4 \<le> length (py_split CHR '','' line) \<and> py_strip (py_split CHR '','' line ! 1) = ''11'')"

definition record_title :: "string \<Rightarrow> string" where
  \<comment> \<open>line 54\<close>
  "record_title line = py_strip (py_remove ''TINFO:'' (py_split CHR '','' line ! 0))"

definition record_size_str :: "string \<Rightarrow> string" where
  \<comment> \<open>line 57\<close>
  "record_size_str line = py_strip_chars [CHR 0x22] (py_strip (py_split CHR '','' line ! 3))"

definition record_size :: "string \<Rightarrow> int" where
  \<comment> \<open>lines 58 to 61\<close>
  "record_size line = (case py_int (record_size_str line) of Some n \<Rightarrow> n | None \<Rightarrow> 0)"

definition size_records :: "string \<Rightarrow> string list" where
  \<comment> \<open>the file size records of a disc-info text, in document order\<close>
  "size_records disc_info_output = filter is_size_record (tinfo_lines_of disc_info_output)"

section \<open>The retrying executor: \<open>send_message\<close>, \<open>error_handler\<close>, \<open>run\<close>\<close>

definition ATTEMPTS :: nat where
  "ATTEMPTS = 3"

text \<open>
  The process as the executor sees it: \<open>env\<close> is whatever the wrapped operations read
  and change (disc, files); \<open>console\<close> holds the lines printed; \<open>requests\<close> holds the
  title and body of every \<open>requests.post\<close> made; \<open>network\<close> is the environment's answer
  to the coming posts (\<open>None\<close>: the post returns, \<open>Some e\<close>: it raises \<open>e\<close>; once the list
  is used up every post returns); \<open>invoked\<close> is a ghost field, the \<open>__name__\<close> of each
  function \<open>run\<close> has called.
\<close>

record 'e world =
  env :: 'e
  console :: "string list"
  requests :: "(string \<times> string) list"
  network :: "exn option list"
  invoked :: "string list"

datatype 'a outcome = Returned 'a | ReturnedNone | Exited int | Raised exn

record ('e, 'a) py_function =
  fn_name :: string
  fn_call :: "'e \<Rightarrow> (exn + 'a) \<times> 'e"

definition print_line :: "string \<Rightarrow> 'e world \<Rightarrow> 'e world" where
  "print_line s w = w\<lparr>console := console w @ [s]\<rparr>"

definition send_message :: "string \<Rightarrow> string \<Rightarrow> 'e world \<Rightarrow> exn option \<times> 'e world" where
  "send_message title message w =
     (case network w of
        [] \<Rightarrow> (None, w\<lparr>requests := requests w @ [(title, message)]\<rparr>)
      | r # rs \<Rightarrow> (r, w\<lparr>requests := requests w @ [(title, message)], network := rs\<rparr>))"

definition error_handler :: "string \<Rightarrow> 'e world \<Rightarrow> int \<times> 'e world" where
  \<comment> \<open>the result is the status \<open>sys.exit\<close> is called with: the function never returns\<close>
  "error_handler message w =
     (let w1 = print_line message w;
          (r, w2) = send_message ''Movie ERROR'' message w1;
          w3 = (case r of
                  Some e \<Rightarrow> print_line (''Failed to send error notification: '' @ str_exn e) w2
                | None \<Rightarrow> w2)
      in (1, w3))"

function str_nat :: "nat \<Rightarrow> string" where
  \<comment> \<open>\<open>str(n)\<close> of a natural number\<close>
  "str_nat n =
     (if n < 10 then [''0123456789'' ! n]
      else str_nat (n div 10) @ [''0123456789'' ! (n mod 10)])"
  by pat_completeness auto
termination
  by (relation "measure (\<lambda>n. n)") auto

declare str_nat.simps [simp del]

definition failure_report :: "string \<Rightarrow> exn \<Rightarrow> string" where
  \<comment> \<open>line 174: the text given to \<open>error_handler\<close>\<close>
  "failure_report name e =
     ''Error running: '' @ name @ [CHR 0x0A] @ ''Attempts: '' @ str_nat ATTEMPTS @ [CHR 0x0A] @
     ''Error: '' @ str_exn e"

function run_from :: "nat \<Rightarrow> ('e, 'a) py_function \<Rightarrow> 'e world \<Rightarrow> 'a outcome \<times> 'e world" where
  \<comment> \<open>the \<open>for\<close> loop of \<open>run\<close> from attempt \<open>i\<close> on\<close>
  "run_from i func w =
     (if i < ATTEMPTS + 1 then
        (case fn_call func (env w) of
           (Inr output, e') \<Rightarrow>
             (Returned output, w\<lparr>env := e', invoked := invoked w @ [fn_name func]\<rparr>)
         | (Inl e, e') \<Rightarrow>
             if i < ATTEMPTS then
               run_from (Suc i) func (w\<lparr>env := e', invoked := invoked w @ [fn_name func]\<rparr>)
             else
               (case error_handler (failure_report (fn_name func) e)
                       (w\<lparr>env := e', invoked := invoked w @ [fn_name func]\<rparr>) of
                  (status, w') \<Rightarrow> (Exited status, w')))
      else (ReturnedNone, w))"
  by pat_completeness auto
termination
  by (relation "measure (\<lambda>(i, func, w). ATTEMPTS + 1 - i)") auto

declare run_from.simps [simp del]

definition run :: "('e, 'a) py_function \<Rightarrow> 'e world \<Rightarrow> 'a outcome \<times> 'e world" where
  "run func w = run_from 1 func w"

text \<open>
  Successive calls of one function: \<open>env_after func n e\<close> is the environment after \<open>n\<close>
  calls in a row from \<open>e\<close>, and \<open>attempt func k e\<close> is what call number \<open>k\<close> (counted from
  0) of such a row returns or raises.
\<close>

fun env_after :: "('e, 'a) py_function \<Rightarrow> nat \<Rightarrow> 'e \<Rightarrow> 'e" where
  "env_after func 0 e = e"
| "env_after func (Suc n) e = env_after func n (snd (fn_call func e))"

definition attempt :: "('e, 'a) py_function \<Rightarrow> nat \<Rightarrow> 'e \<Rightarrow> exn + 'a" where
  "attempt func k e = fst (fn_call func (env_after func k e))"

section \<open>Paths: \<open>os.path.join\<close> and \<open>os.path.basename\<close>\<close>

text \<open>
  \<open>os.path\<close> is one of two modules, by the platform the program runs on: \<open>posixpath\<close>, or
  \<open>ntpath\<close> on Windows (where \<open>makemkvcon64.exe\<close> and the drive letters belong). Both are
  modelled, for \<open>os.path.join\<close> of two components and for \<open>os.path.basename\<close>.
\<close>

datatype path_module = Posixpath | Ntpath

definition posix_join :: "string \<Rightarrow> string \<Rightarrow> string" where
  \<comment> \<open>\<open>posixpath.join\<close> of two components, with \<open>/\<close> as the separator\<close>
  "posix_join a b =
     (if prefix ''/'' b then b
      else if a = [] \<or> last a = CHR ''/'' then a @ b
      else a @ ''/'' @ b)"

definition posix_basename :: "string \<Rightarrow> string" where
  \<comment> \<open>\<open>posixpath.basename\<close>: what follows the last separator\<close>
  "posix_basename p = rev (takeWhile (\<lambda>c. c \<noteq> CHR ''/'') (rev p))"

definition nt_sep :: "char \<Rightarrow> bool" where
  \<comment> \<open>\<open>ntpath\<close> takes the backslash and the slash as separators\<close>
  "nt_sep c = (c = CHR 0x5C \<or> c = CHR ''/'')"

definition unc_prefix :: string where
  \<comment> \<open>the prefix of a long UNC path: two backslashes, \<open>?\<close>, a backslash, \<open>UNC\<close>, a backslash\<close>
  "unc_prefix = [CHR 0x5C, CHR 0x5C, CHR ''?'', CHR 0x5C, CHR ''U'', CHR ''N'', CHR ''C'', CHR 0x5C]"

definition py_upper :: "char \<Rightarrow> char" where
  \<comment> \<open>\<open>str.upper\<close> for the comparison with \<open>unc_prefix\<close>: of the characters below 256 only
      the letters \<open>c\<close>, \<open>n\<close> and \<open>u\<close> become a character of the prefix\<close>
  "py_upper c =
     (let n = of_char c :: nat in if 97 \<le> n \<and> n \<le> 122 then char_of (n - 32) else c)"

definition py_lower :: "char \<Rightarrow> char" where
  \<comment> \<open>\<open>str.lower\<close> on a character below 256: the letters \<open>A\<close> to \<open>Z\<close> and the capital
      letters of Latin-1 (0xC0 to 0xDE without the sign 0xD7) move up by 32\<close>
  "py_lower c =
     (let n = of_char c :: nat
      in if (65 \<le> n \<and> n \<le> 90) \<or> (192 \<le> n \<and> n \<le> 222 \<and> n \<noteq> 215) then char_of (n + 32) else c)"

definition find_sep :: "nat \<Rightarrow> string \<Rightarrow> nat option" where
  \<comment> \<open>\<open>normp.find(sep, start)\<close>, on the path whose slashes count as backslashes; \<open>None\<close>
      is the result \<open>-1\<close>\<close>
  "find_sep start p = List.find (\<lambda>i. nt_sep (p ! i)) [start..<length p]"

definition nt_splitdrive :: "string \<Rightarrow> string \<times> string" where
  \<comment> \<open>\<open>ntpath.splitdrive\<close>: a UNC share or a drive letter with its colon, and the rest\<close>
  "nt_splitdrive p =
     (if 2 \<le> length p then
        if nt_sep (p ! 0) \<and> nt_sep (p ! 1) then
          (let normp = map (\<lambda>c. if c = CHR ''/'' then CHR 0x5C else c) p;
               start = (if map py_upper (take 8 normp) = unc_prefix then 8 else 2)
           in case find_sep start p of
                None \<Rightarrow> (p, [])
              | Some index \<Rightarrow>
                  (case find_sep (index + 1) p of
                     None \<Rightarrow> (p, [])
                   | Some index2 \<Rightarrow> (take index2 p, drop index2 p)))
        else if p ! 1 = CHR '':'' then (take 2 p, drop 2 p)
        else ([], p)
      else ([], p))"

definition nt_join :: "string \<Rightarrow> string \<Rightarrow> string" where
  \<comment> \<open>\<open>ntpath.join\<close> of two components: the loop body runs once, then the drive and the
      path are put together\<close>
  "nt_join path p =
     (let (result_drive, result_path) = nt_splitdrive path;
          (p_drive, p_path) = nt_splitdrive p;
          (result_drive, result_path) =
            (if p_path \<noteq> [] \<and> nt_sep (hd p_path) then
               (if p_drive \<noteq> [] \<or> result_drive = [] then p_drive else result_drive, p_path)
             else if p_drive \<noteq> [] \<and> p_drive \<noteq> result_drive \<and>
                     map py_lower p_drive \<noteq> map py_lower result_drive then
               (p_drive, p_path)
             else
               (if p_drive \<noteq> [] \<and> p_drive \<noteq> result_drive then p_drive else result_drive,
                (if result_path \<noteq> [] \<and> \<not> nt_sep (last result_path)
                 then result_path @ [CHR 0x5C] else result_path) @ p_path))
      in if result_path \<noteq> [] \<and> \<not> nt_sep (hd result_path) \<and>
            result_drive \<noteq> [] \<and> last result_drive \<noteq> CHR '':''
         then result_drive @ [CHR 0x5C] @ result_path
         else result_drive @ result_path)"

definition nt_basename :: "string \<Rightarrow> string" where
  \<comment> \<open>\<open>ntpath.basename\<close>: what follows the last separator of the part after the drive\<close>
  "nt_basename p =
     (let (d, rest) = nt_splitdrive p in rev (takeWhile (\<lambda>c. \<not> nt_sep c) (rev rest)))"

definition os_path_join :: "path_module \<Rightarrow> string \<Rightarrow> string \<Rightarrow> string" where
  "os_path_join os_path a b =
     (case os_path of Posixpath \<Rightarrow> posix_join a b | Ntpath \<Rightarrow> nt_join a b)"

definition os_path_basename :: "path_module \<Rightarrow> string \<Rightarrow> string" where
  "os_path_basename os_path p =
     (case os_path of Posixpath \<Rightarrow> posix_basename p | Ntpath \<Rightarrow> nt_basename p)"

definition unc_like :: "string \<Rightarrow> bool" where
  \<comment> \<open>a path that begins with two separators, as the name of a network share does\<close>
  "unc_like p = (2 \<le> length p \<and> nt_sep (p ! 0) \<and> nt_sep (p ! 1))"

section \<open>The progress monitor: \<open>poll_file_size_progress\<close>\<close>

text \<open>
  The bar of \<open>tqdm\<close>: \<open>bar_shown\<close> holds the value of \<open>n\<close> at each display, oldest first.
  A new bar displays itself once.
\<close>

record progress_bar =
  bar_total :: int
  bar_n :: int
  bar_shown :: "int list"
  bar_closed :: bool

definition tqdm :: "int \<Rightarrow> progress_bar" where
  "tqdm expected = \<lparr>bar_total = expected, bar_n = 0, bar_shown = [0], bar_closed = False\<rparr>"

definition refresh :: "progress_bar \<Rightarrow> progress_bar" where
  "refresh b = b\<lparr>bar_shown := bar_shown b @ [bar_n b]\<rparr>"

definition close_bar :: "progress_bar \<Rightarrow> progress_bar" where
  "close_bar b = b\<lparr>bar_closed := True\<rparr>"

text \<open>
  What the file system answers during one pass of the loop: \<open>glob\<close> is the listing for a
  pattern (\<open>glob.glob\<close> gives the empty list when the directory cannot be read);
  \<open>getsize k p\<close> is the answer to the \<open>k\<close>-th call of \<open>os.path.getsize\<close> in this pass
  (counted from 0), on the path \<open>p\<close>: a size or the exception raised. The answers to two
  calls on one path may differ, as the files change while the loop runs. \<open>tick_os_path\<close>
  is the module that \<open>os.path\<close> is on this platform.
\<close>

record tick =
  tick_os_path :: path_module
  glob :: "string \<Rightarrow> string list"
  getsize :: "nat \<Rightarrow> string \<Rightarrow> exn + nat"

record monitor =
  current_progress :: int
  progress_bar :: progress_bar
  printed :: "string list"

fun max_from :: "(nat \<Rightarrow> 'a \<Rightarrow> exn + nat) \<Rightarrow> nat \<Rightarrow> 'a list \<Rightarrow> 'a \<times> nat \<Rightarrow> exn + 'a" where
  \<comment> \<open>the scan of \<open>max(xs, key=...)\<close> after its first item: a later item replaces the best
      one only when its key is greater; an exception of the key function ends the scan\<close>
  "max_from key k [] (best, best_key) = Inr best"
| "max_from key k (x # xs) (best, best_key) =
     (case key k x of
        Inl e \<Rightarrow> Inl e
      | Inr v \<Rightarrow> max_from key (Suc k) xs (if best_key < v then (x, v) else (best, best_key)))"

fun py_max :: "(nat \<Rightarrow> 'a \<Rightarrow> exn + nat) \<Rightarrow> 'a list \<Rightarrow> exn + 'a" where
  "py_max key [] = Inl (Exception ''max() arg is an empty sequence'')"
| "py_max key (x # xs) =
     (case key 0 x of Inl e \<Rightarrow> Inl e | Inr v \<Rightarrow> max_from key 1 xs (x, v))"

definition poll_tick :: "string \<Rightarrow> tick \<Rightarrow> monitor \<Rightarrow> exn option \<times> monitor" where
  \<comment> \<open>lines 78 to 89: one pass of the loop; \<open>Some e\<close> is an exception that leaves the
      function. The call of \<open>max\<close> on line 81 stands before the \<open>try\<close> of line 82\<close>
  "poll_tick output_directory t m =
     (let mkv_files = glob t (os_path_join (tick_os_path t) output_directory ''*.mkv'') in
      if mkv_files \<noteq> [] then
        (case py_max (getsize t) mkv_files of
           Inl e \<Rightarrow> (Some e, m)
         | Inr current_file \<Rightarrow>
             (case getsize t (length mkv_files) current_file of
                Inl e \<Rightarrow> (None, m\<lparr>printed := printed m @
                                     [''Error checking file size: '' @ str_exn e]\<rparr>)
              | Inr progress \<Rightarrow>
                  if current_progress m < int progress then
                    (None, m\<lparr>progress_bar :=
                                refresh ((progress_bar m)\<lparr>bar_n := int progress\<rparr>),
                              current_progress := int progress\<rparr>)
                  else (None, m)))
      else (None, m))"

fun poll_loop :: "string \<Rightarrow> tick list \<Rightarrow> monitor \<Rightarrow> exn option \<times> monitor" where
  \<comment> \<open>the \<open>while\<close> loop: one tick for each pass that found the stop event unset\<close>
  "poll_loop output_directory [] m = (None, m)"
| "poll_loop output_directory (t # ts) m =
     (case poll_tick output_directory t m of
        (Some e, m') \<Rightarrow> (Some e, m')
      | (None, m') \<Rightarrow> poll_loop output_directory ts m')"

definition poll_file_size_progress ::
  "int \<Rightarrow> string \<Rightarrow> progress_bar \<Rightarrow> tick list \<Rightarrow> exn option \<times> monitor" where
  \<comment> \<open>the stop event is given as the list of the passes made before it is seen set\<close>
  "poll_file_size_progress expected_file_size output_directory bar stop_event =
     poll_loop output_directory stop_event
       \<lparr>current_progress = 0, progress_bar = bar, printed = []\<rparr>"

definition reported :: "progress_bar \<Rightarrow> monitor \<Rightarrow> int list" where
  \<comment> \<open>the values the monitor has displayed on a bar that it was given as \<open>bar\<close>\<close>
  "reported bar m = drop (length (bar_shown bar)) (bar_shown (progress_bar m))"

section \<open>The rip: \<open>rip_dvd\<close>\<close>

text \<open>
  The environment of one rip. \<open>popen\<close> answers the run of the process, from its start to
  the end of the loop over \<open>process.stdout\<close>: with the exit code the process ends with, or
  with the exception that \<open>subprocess.Popen\<close> raises (line 98: nothing was started), or
  with the exception raised while the lines of the output are read (line 112: the pipe is
  read as text, and a byte that the encoding of the platform cannot decode raises
  \<open>UnicodeDecodeError\<close>). \<open>ticks\<close> are the passes the monitor makes meanwhile;
  \<open>glob_after\<close>, \<open>getmtime\<close> and \<open>rename\<close> answer the calls made after the process has
  ended; \<open>os_path\<close> is the module that \<open>os.path\<close> is. Modification times are of any
  linearly ordered type.

  The effects: the command lines started, the bar, what the monitor thread printed, the
  renames made, and \<open>monitors_running\<close>, the number of monitor threads that are still in
  their loop when \<open>rip_dvd\<close> is left. The thread of line 104 is not a daemon, and its loop
  ends when the event is set (line 116) or when an exception leaves it (line 81).
\<close>

datatype process_error = PopenRaised exn | DrainRaised exn

record 't rip_env =
  os_path :: path_module
  popen :: "string list \<Rightarrow> process_error + int"
  ticks :: "tick list"
  glob_after :: "string \<Rightarrow> string list"
  getmtime :: "string \<Rightarrow> exn + 't"
  rename :: "string \<Rightarrow> string \<Rightarrow> exn option"

record rip_effects =
  spawned :: "string list list"
  fx_bar :: "progress_bar option"
  thread_output :: "string list"
  renamed :: "(string \<times> string) list"
  monitors_running :: nat

fun keys_of :: "('a \<Rightarrow> exn + 'k) \<Rightarrow> 'a list \<Rightarrow> exn + ('k \<times> 'a) list" where
  \<comment> \<open>the key of every item, computed once and in order; the first exception ends it\<close>
  "keys_of key [] = Inr []"
| "keys_of key (x # xs) =
     (case key x of
        Inl e \<Rightarrow> Inl e
      | Inr k \<Rightarrow> (case keys_of key xs of Inl e \<Rightarrow> Inl e | Inr kxs \<Rightarrow> Inr ((k, x) # kxs)))"

definition sorted_reverse :: "('a \<Rightarrow> exn + 'k::linorder) \<Rightarrow> 'a list \<Rightarrow> exn + 'a list" where
  \<comment> \<open>\<open>sorted(xs, key=..., reverse=True)\<close>: the sort is stable, and the reversed order
      keeps items of equal keys in their first order\<close>
  "sorted_reverse key xs =
     (case keys_of key xs of
        Inl e \<Rightarrow> Inl e
      | Inr kxs \<Rightarrow> Inr (map snd (rev (sort_key fst (rev kxs)))))"

definition rip_command :: "string \<Rightarrow> string \<Rightarrow> string \<Rightarrow> string list" where
  \<comment> \<open>line 96\<close>
  "rip_command drive_letter title_index output_directory =
     [''./makemkvcon64.exe'', ''-r'', ''mkv'', ''dev:'' @ drive_letter @ '':'',
      title_index, output_directory]"

definition rip_dvd ::
  "string \<Rightarrow> string \<Rightarrow> string \<Rightarrow> int \<Rightarrow> string \<Rightarrow> ('t::linorder) rip_env \<Rightarrow>
   (exn + string) \<times> rip_effects" where
  "rip_dvd title_index output_file_name output_directory expected_file_size drive_letter x =
     (let command = rip_command drive_letter title_index output_directory
      in case popen x command of
           Inl (PopenRaised e) \<Rightarrow>
             (Inl e, \<lparr>spawned = [], fx_bar = None, thread_output = [], renamed = [],
                      monitors_running = 0\<rparr>)
         | Inl (DrainRaised e) \<Rightarrow>
             (let (died, m) = poll_file_size_progress expected_file_size output_directory
                                (tqdm expected_file_size) (ticks x)
              in (Inl e, \<lparr>spawned = [command], fx_bar = Some (progress_bar m),
                          thread_output = printed m, renamed = [],
                          monitors_running = (if died = None then 1 else 0)\<rparr>))
         | Inr exit_code \<Rightarrow>
             (let (died, m) = poll_file_size_progress expected_file_size output_directory
                                (tqdm expected_file_size) (ticks x);
                  final_bar = close_bar (refresh ((progress_bar m)\<lparr>bar_n := expected_file_size\<rparr>));
                  fx = \<lparr>spawned = [command], fx_bar = Some final_bar,
                        thread_output = printed m, renamed = [], monitors_running = 0\<rparr>
              in if exit_code \<noteq> 0 then
                   (Inl (Exception ''MakeMKV returned an error during ripping.''), fx)
                 else
                   (case sorted_reverse (getmtime x)
                           (glob_after x (os_path_join (os_path x) output_directory ''*.mkv'')) of
                      Inl e \<Rightarrow> (Inl e, fx)
                    | Inr mkv_files \<Rightarrow>
                        if mkv_files = [] then
                          (Inl (Exception ''No MKV file found after ripping.''), fx)
                        else
                          (let ripped_file = mkv_files ! 0;
                               new_file_name = output_file_name @ ''.mkv'';
                               new_file_path = os_path_join (os_path x) output_directory new_file_name
                           in case rename x ripped_file new_file_path of
                                Some e \<Rightarrow>
                                  (Inl (Exception (''Error renaming MKV file: '' @ str_exn e)), fx)
                              | None \<Rightarrow>
                                  (Inr new_file_path,
                                   fx\<lparr>renamed := [(ripped_file, new_file_path)]\<rparr>)))))"

text \<open>
  \<open>rip_dvd\<close> as \<open>main\<close> gives it to \<open>run\<close> (line 196). The environment of the stage is the
  number of calls made so far and the number of monitor threads still in their loop;
  \<open>rips k\<close> is the environment that call number \<open>k\<close> (counted from 0) meets.
\<close>

definition rip_stage ::
  "(nat \<Rightarrow> ('t::linorder) rip_env) \<Rightarrow> string \<Rightarrow> string \<Rightarrow> string \<Rightarrow> int \<Rightarrow> string \<Rightarrow>
   (nat \<times> nat, string) py_function" where
  "rip_stage rips title_index output_file_name output_directory expected_file_size drive_letter =
     \<lparr>fn_name = ''rip_dvd'',
      fn_call = (\<lambda>(calls, monitors).
        let (r, fx) = rip_dvd title_index output_file_name output_directory
                        expected_file_size drive_letter (rips calls)
        in (r, (Suc calls, monitors + monitors_running fx)))\<rparr>"

definition process_ends :: "(nat \<times> nat) world \<Rightarrow> bool" where
  \<comment> \<open>after \<open>sys.exit\<close> has unwound the main thread the interpreter joins every thread
      that is not a daemon: the process ends once none of them is left in its loop\<close>
  "process_ends w = (snd (env w) = 0)"

section \<open>Sample inputs\<close>

definition quoted :: "string \<Rightarrow> string" where
  \<comment> \<open>a text between double quotes\<close>
  "quoted s = CHR 0x22 # s @ [CHR 0x22]"

definition info_process :: "string \<Rightarrow> string list \<Rightarrow> exn + completed_process" where
  \<comment> \<open>a disc-info query that exits with 0 after writing \<open>out\<close>\<close>
  "info_process out argv = Inr \<lparr>returncode = 0, stdout = out\<rparr>"

definition scenario_disc :: string where
  "scenario_disc = ''TINFO:0,11,0,'' @ quoted ''500000000'' @ [CHR 0x0A] @
                   ''TINFO:1,11,0,'' @ quoted ''1200000000'' @ [CHR 0x0A]"

definition tie_disc :: string where
  "tie_disc = ''TINFO:0,11,0,'' @ quoted ''700'' @ [CHR 0x0A] @
              ''TINFO:0,2,0,'' @ quoted ''Main'' @ [CHR 0x0A] @
              ''TINFO:1,11,0,'' @ quoted ''900'' @ [CHR 0x0A] @
              ''TINFO:2,11,0,'' @ quoted ''900'' @ [CHR 0x0A]"

definition zero_disc :: string where
  "zero_disc = ''TINFO:0,11,0,'' @ quoted ''0'' @ [CHR 0x0A] @
               ''TINFO:1,11,0,'' @ quoted ''0'' @ [CHR 0x0A]"

definition blank_disc :: string where
  "blank_disc = ''TINFO:0,11,0,'' @ quoted ''0'' @ [CHR 0x0A] @
                ''TINFO:1,11,0,'' @ quoted ''000'' @ [CHR 0x0A] @
                ''TINFO:2,11,0,'' @ quoted ''0'' @ [CHR 0x0A]"

definition unreadable_size_disc :: string where
  "unreadable_size_disc = ''TINFO:0,11,0,'' @ quoted ''abc'' @ [CHR 0x0A]"

definition no_record_disc :: string where
  "no_record_disc = ''TINFO:0,2,0,'' @ quoted ''Main'' @ [CHR 0x0A] @
                    ''CINFO:1,11,0,'' @ quoted ''900'' @ [CHR 0x0A]"

definition fresh_world :: "'e \<Rightarrow> 'e world" where
  \<comment> \<open>a process that has printed, posted and called nothing yet\<close>
  "fresh_world e = \<lparr>env = e, console = [], requests = [], network = [], invoked = []\<rparr>"

definition flaky :: "nat \<Rightarrow> (nat, nat) py_function" where
  \<comment> \<open>a function named \<open>rip_dvd\<close> on a counter of its calls: it raises on its first \<open>n\<close>
      calls and returns ten times the counter afterwards\<close>
  "flaky n = \<lparr>fn_name = ''rip_dvd'',
              fn_call = (\<lambda>e. (if e < n then Inl (Exception ''MakeMKV returned an error during ripping.'')
                               else Inr (10 * e), Suc e))\<rparr>"

definition steady_tick :: "nat \<Rightarrow> tick" where
  \<comment> \<open>a pass that finds one file, of size \<open>n\<close> at every reading\<close>
  "steady_tick n = \<lparr>tick_os_path = Posixpath, glob = (\<lambda>pattern. [''temp/D/title_t00.mkv'']), getsize = (\<lambda>k p. Inr n)\<rparr>"

definition vanishing_tick :: tick where
  \<comment> \<open>a pass whose listing names a file that is gone when its size is first read\<close>
  "vanishing_tick =
     \<lparr>tick_os_path = Posixpath, glob = (\<lambda>pattern. [''temp/D/title_t00.mkv'']),
      getsize = (\<lambda>k p. Inl (OSError ''[Errno 2] No such file or directory''))\<rparr>"

definition late_vanishing_tick :: tick where
  \<comment> \<open>a pass whose file is there for the first reading of its size and gone for the second\<close>
  "late_vanishing_tick =
     \<lparr>tick_os_path = Posixpath, glob = (\<lambda>pattern. [''temp/D/title_t00.mkv'']),
      getsize = (\<lambda>k p. if k = 0 then Inr 500
                        else Inl (OSError ''[Errno 2] No such file or directory''))\<rparr>"

definition rip_world :: "int \<Rightarrow> string list \<Rightarrow> (string \<Rightarrow> nat) \<Rightarrow> nat rip_env" where
  \<comment> \<open>a rip whose process ends with \<open>exit_code\<close>, watched for two passes, after which the
      directory holds \<open>files\<close> with the modification times \<open>mtime\<close>; every rename succeeds\<close>
  "rip_world exit_code files mtime =
     \<lparr>os_path = Posixpath,
      popen = (\<lambda>argv. Inr exit_code),
      ticks = [steady_tick 300, steady_tick 900],
      glob_after = (\<lambda>pattern. files),
      getmtime = (\<lambda>p. Inr (mtime p)),
      rename = (\<lambda>src dst. None)\<rparr>"

definition three_files :: "string list" where
  "three_files = [''temp/D/A1_t00.mkv'', ''temp/D/B1_t01.mkv'', ''temp/D/C1_t02.mkv'']"

definition three_mtimes :: "string \<Rightarrow> nat" where
  \<comment> \<open>the first file is the oldest, the two others were modified at the same time\<close>
  "three_mtimes p = (if p = ''temp/D/A1_t00.mkv'' then 10 else 50)"

definition locked_world :: "nat rip_env" where
  \<comment> \<open>the three files, of which the second alone cannot be renamed\<close>
  "locked_world =
     (rip_world 0 three_files three_mtimes)
       \<lparr>rename := (\<lambda>src dst. if src = ''temp/D/B1_t01.mkv''
                              then Some (OSError ''[WinError 32] The file is in use'') else None)\<rparr>"

definition nt_dir :: string where
  \<comment> \<open>the directory \<open>temp\<close>, backslash, \<open>D\<close>\<close>
  "nt_dir = ''temp'' @ [CHR 0x5C] @ ''D''"

definition nt_files :: "string list" where
  "nt_files = [nt_dir @ [CHR 0x5C] @ ''A1_t00.mkv'', nt_dir @ [CHR 0x5C] @ ''B1_t01.mkv'']"

definition nt_mtimes :: "string \<Rightarrow> nat" where
  \<comment> \<open>the first of \<open>nt_files\<close> is the older one\<close>
  "nt_mtimes p = (if p = nt_dir @ [CHR 0x5C] @ ''A1_t00.mkv'' then 10 else 50)"

definition nt_world :: "nat rip_env" where
  \<comment> \<open>a rip on Windows that ends with exit code 0 and leaves \<open>nt_files\<close>\<close>
  "nt_world =
     \<lparr>os_path = Ntpath,
      popen = (\<lambda>argv. Inr 0),
      ticks = [(steady_tick 300)\<lparr>tick_os_path := Ntpath\<rparr>],
      glob_after = (\<lambda>pattern. nt_files),
      getmtime = (\<lambda>p. Inr (nt_mtimes p)),
      rename = (\<lambda>src dst. None)\<rparr>"

definition stat_fails_world :: "nat rip_env" where
  \<comment> \<open>exit code 0 and three files, one of which is gone when its modification time is read\<close>
  "stat_fails_world =
     (rip_world 0 three_files three_mtimes)
       \<lparr>getmtime := (\<lambda>p. if p = ''temp/D/C1_t02.mkv''
                          then Inl (OSError ''[Errno 2] No such file or directory'')
                          else Inr (three_mtimes p))\<rparr>"

definition undecodable :: exn where
  "undecodable = UnicodeDecodeError ''charmap codec cannot decode byte 0x81''"

definition garbled_rip :: "nat \<Rightarrow> nat rip_env" where
  \<comment> \<open>every rip starts its process and its monitor, and the output of the process holds a
      byte that cannot be decoded; the monitor has made one pass by then\<close>
  "garbled_rip k =
     (rip_world 0 [] three_mtimes)
       \<lparr>popen := (\<lambda>argv. Inl (DrainRaised undecodable)), ticks := [steady_tick 300]\<rparr>"

definition failing_rip :: "nat \<Rightarrow> nat rip_env" where
  \<comment> \<open>every rip runs to the end of its process, which ends with exit code 1\<close>
  "failing_rip k = rip_world 1 [] three_mtimes"

chapter \<open>Properties\<close>

section \<open>Title selection\<close>

lemma scan_line_eq:
  "scan_line st line =
     (if is_size_record line \<and> snd st < record_size line
      then (StrIndex (record_title line), record_size line) else st)"
  by (simp add: scan_line_def is_size_record_def record_title_def record_size_def
      record_size_str_def Let_def)

lemma foldl_scan_filter:
  "foldl scan_line st ls = foldl scan_line st (filter is_size_record ls)"
  by (induction ls arbitrary: st) (simp_all add: scan_line_eq)

lemma scan_records_char:
  assumes "\<forall>l \<in> set rs. is_size_record l"
  shows "(foldl scan_line (IntIndex (- 1), 0) rs = (IntIndex (- 1), 0) \<and>
          (\<forall>l \<in> set rs. record_size l \<le> 0)) \<or>
         (\<exists>i < length rs.
            foldl scan_line (IntIndex (- 1), 0) rs =
              (StrIndex (record_title (rs ! i)), record_size (rs ! i)) \<and>
            0 < record_size (rs ! i) \<and>
            (\<forall>j < length rs. record_size (rs ! j) \<le> record_size (rs ! i)) \<and>
            (\<forall>j < i. record_size (rs ! j) < record_size (rs ! i)))"
  using assms
proof (induction rs rule: rev_induct)
  case Nil
  then show ?case by simp
next
  case (snoc l rs)
  let ?st = "foldl scan_line (IntIndex (- 1), 0) rs"
  have step: "foldl scan_line (IntIndex (- 1), 0) (rs @ [l]) =
      (if is_size_record l \<and> snd ?st < record_size l
       then (StrIndex (record_title l), record_size l) else ?st)"
    by (simp only: foldl_append foldl.simps scan_line_eq)
  from snoc.prems have rec: "is_size_record l" and recs: "\<forall>l \<in> set rs. is_size_record l"
    by simp_all
  from snoc.IH [OF recs] consider
    (none) "?st = (IntIndex (- 1), 0)" "\<forall>l \<in> set rs. record_size l \<le> 0"
  | (some) i where "i < length rs"
      "?st = (StrIndex (record_title (rs ! i)), record_size (rs ! i))"
      "0 < record_size (rs ! i)"
      "\<forall>j < length rs. record_size (rs ! j) \<le> record_size (rs ! i)"
      "\<forall>j < i. record_size (rs ! j) < record_size (rs ! i)"
    by blast
  then show ?case
  proof cases
    case none
    from none(2) have idx: "\<forall>j < length rs. record_size (rs ! j) \<le> 0"
      by simp
    show ?thesis
    proof (cases "0 < record_size l")
      case True
      have "foldl scan_line (IntIndex (- 1), 0) (rs @ [l]) =
              (StrIndex (record_title ((rs @ [l]) ! length rs)), record_size ((rs @ [l]) ! length rs))"
        using none(1) True rec unfolding step by simp
      moreover have "\<forall>j < length (rs @ [l]). record_size ((rs @ [l]) ! j) \<le> record_size ((rs @ [l]) ! length rs)"
        using idx True by (auto simp: nth_append less_Suc_eq order.trans [OF _ less_imp_le])
      moreover have "\<forall>j < length rs. record_size ((rs @ [l]) ! j) < record_size ((rs @ [l]) ! length rs)"
        using idx True by (auto simp: nth_append intro: le_less_trans)
      ultimately show ?thesis using True
        by (intro disjI2 exI [of _ "length rs"]) simp
    next
      case False
      then show ?thesis using none unfolding step by simp
    qed
  next
    case some
    show ?thesis
    proof (cases "record_size (rs ! i) < record_size l")
      case True
      have "foldl scan_line (IntIndex (- 1), 0) (rs @ [l]) =
              (StrIndex (record_title ((rs @ [l]) ! length rs)), record_size ((rs @ [l]) ! length rs))"
        using some(2) True rec unfolding step by simp
      moreover have "\<forall>j < length (rs @ [l]). record_size ((rs @ [l]) ! j) \<le> record_size ((rs @ [l]) ! length rs)"
        using some(4) True by (auto simp: nth_append less_Suc_eq) 
      moreover have "\<forall>j < length rs. record_size ((rs @ [l]) ! j) < record_size ((rs @ [l]) ! length rs)"
        using some(4) True by (auto simp: nth_append)
      moreover have "0 < record_size ((rs @ [l]) ! length rs)"
        using some(3) True by simp
      ultimately show ?thesis
        by (intro disjI2 exI [of _ "length rs"]) simp
    next
      case False
      have "foldl scan_line (IntIndex (- 1), 0) (rs @ [l]) =
              (StrIndex (record_title ((rs @ [l]) ! i)), record_size ((rs @ [l]) ! i))"
        using some(1,2) False unfolding step by (simp add: nth_append)
      moreover have "\<forall>j < length (rs @ [l]). record_size ((rs @ [l]) ! j) \<le> record_size ((rs @ [l]) ! i)"
        using some(1,4) False by (auto simp: nth_append less_Suc_eq)
      moreover have "\<forall>j < i. record_size ((rs @ [l]) ! j) < record_size ((rs @ [l]) ! i)"
        using some(1,5) by (auto simp: nth_append)
      moreover have "0 < record_size ((rs @ [l]) ! i)"
        using some(1,3) by (simp add: nth_append)
      ultimately show ?thesis using some(1)
        by (intro disjI2 exI [of _ i]) simp
    qed
  qed
qed


lemma scan_lines_records:
  "scan_lines (tinfo_lines_of out) = foldl scan_line (IntIndex (- 1), 0) (size_records out)"
  unfolding scan_lines_def size_records_def by (rule foldl_scan_filter)

lemma size_records_are_records: "\<forall>l \<in> set (size_records out). is_size_record l"
  by (simp add: size_records_def)

lemma get_largest_title_completed:
  assumes "subprocess_run (info_command drive_letter) = Inr result"
    and "returncode result = 0" and "stdout result \<noteq> []"
  shows "get_largest_title subprocess_run drive_letter =
           (if fst (scan_lines (tinfo_lines_of (stdout result))) = IntIndex (- 1)
            then Inl (Exception ''Could not find any titles on the DVD.'')
            else Inr (scan_lines (tinfo_lines_of (stdout result))))"
  using assms by (simp add: get_largest_title_def split: prod.splits)

lemma selection_positive:
  assumes "subprocess_run (info_command drive_letter) = Inr result"
    and "returncode result = 0" and "stdout result \<noteq> []"
    and "\<exists>l \<in> set (size_records (stdout result)). 0 < record_size l"
  shows "\<exists>i < length (size_records (stdout result)).
           get_largest_title subprocess_run drive_letter =
             Inr (StrIndex (record_title (size_records (stdout result) ! i)),
                  record_size (size_records (stdout result) ! i)) \<and>
           (\<forall>j < length (size_records (stdout result)).
              record_size (size_records (stdout result) ! j)
                \<le> record_size (size_records (stdout result) ! i)) \<and>
           (\<forall>j < i. record_size (size_records (stdout result) ! j)
                       < record_size (size_records (stdout result) ! i))"
proof -
  let ?rs = "size_records (stdout result)"
  from assms(4) have "\<not> (\<forall>l \<in> set ?rs. record_size l \<le> 0)" by force
  with scan_records_char [OF size_records_are_records, of "stdout result"]
  obtain i where i: "i < length ?rs"
    "foldl scan_line (IntIndex (- 1), 0) ?rs = (StrIndex (record_title (?rs ! i)), record_size (?rs ! i))"
    "\<forall>j < length ?rs. record_size (?rs ! j) \<le> record_size (?rs ! i)"
    "\<forall>j < i. record_size (?rs ! j) < record_size (?rs ! i)"
    by blast
  have "get_largest_title subprocess_run drive_letter =
          Inr (StrIndex (record_title (?rs ! i)), record_size (?rs ! i))"
    using get_largest_title_completed [of subprocess_run drive_letter result, OF assms(1-3)] i(2)
    by (simp add: scan_lines_records)
  with i show ?thesis by blast
qed

lemma selection_nonpositive:
  assumes "subprocess_run (info_command drive_letter) = Inr result"
    and "returncode result = 0" and "stdout result \<noteq> []"
    and "\<forall>l \<in> set (size_records (stdout result)). record_size l \<le> 0"
  shows "get_largest_title subprocess_run drive_letter =
           Inl (Exception ''Could not find any titles on the DVD.'')"
proof -
  let ?rs = "size_records (stdout result)"
  have "foldl scan_line (IntIndex (- 1), 0) ?rs = (IntIndex (- 1), 0)"
    using scan_records_char [OF size_records_are_records, of "stdout result"] assms(4)
    by (auto simp: not_less [symmetric] dest: nth_mem)
  then show ?thesis
    using get_largest_title_completed [of subprocess_run drive_letter result, OF assms(1-3)] by (simp add: scan_lines_records)
qed



lemmas title_eval =
  get_largest_title_def info_process_def info_command_def quoted_def tinfo_lines_of_def
  py_splitlines_def py_islinebreak_def py_strip_def py_isspace_def scan_lines_def
  scan_line_def py_split_def py_strip_chars_def py_int_def int_isspace_def py_isdigit_def
  MAX_STR_DIGITS_def digits_value_def size_records_def is_size_record_def record_title_def
  record_size_def record_size_str_def Let_def

lemma scenario_value:
  "get_largest_title (info_process scenario_disc) drive_letter = Inr (StrIndex ''1'', 1200000000)"
  by (simp add: scenario_disc_def title_eval)

text \<open>
  C1, as the code has it. For every disc-info text that has a file size record of a size
  above 0 (the query having exited with 0 and written something), \<open>get_largest_title\<close>
  returns the title and the size of a file size record of the greatest size, and of the
  first such record in document order: every record before it is strictly smaller. On
  the text with the records \<open>TINFO:0,11,0,"500000000"\<close> and \<open>TINFO:1,11,0,"1200000000"\<close>
  it returns the title \<open>1\<close> and the size 1200000000.
\<close>

theorem largest_title_selected:
  "(\<forall>subprocess_run drive_letter result.
      subprocess_run (info_command drive_letter) = Inr result \<and>
      returncode result = 0 \<and> stdout result \<noteq> [] \<and>
      (\<exists>l \<in> set (size_records (stdout result)). 0 < record_size l) \<longrightarrow>
      (\<exists>i < length (size_records (stdout result)).
         get_largest_title subprocess_run drive_letter =
           Inr (StrIndex (record_title (size_records (stdout result) ! i)),
                record_size (size_records (stdout result) ! i)) \<and>
         (\<forall>j < length (size_records (stdout result)).
            record_size (size_records (stdout result) ! j)
              \<le> record_size (size_records (stdout result) ! i)) \<and>
         (\<forall>j < i. record_size (size_records (stdout result) ! j)
                     < record_size (size_records (stdout result) ! i)))) \<and>
   (\<forall>drive_letter.
      get_largest_title (info_process scenario_disc) drive_letter
      = Inr (StrIndex ''1'', 1200000000))"
  using selection_positive scenario_value by blast

theorem largest_title_selected_witness:
  "map (\<lambda>l. (record_title l, record_size l)) (size_records tie_disc)
     = [(''0'', 700), (''1'', 900), (''2'', 900)] \<and>
   get_largest_title (info_process tie_disc) ''D'' = Inr (StrIndex ''1'', 900) \<and>
   (\<exists>i < length (size_records tie_disc).
      get_largest_title (info_process tie_disc) ''D''
      = Inr (StrIndex (record_title (size_records tie_disc ! i)),
             record_size (size_records tie_disc ! i)))"
proof -
  have recs: "map (\<lambda>l. (record_title l, record_size l)) (size_records tie_disc)
                = [(''0'', 700), (''1'', 900), (''2'', 900)]"
    by (simp add: tie_disc_def title_eval)
  have val: "get_largest_title (info_process tie_disc) ''D'' = Inr (StrIndex ''1'', 900)"
    by (simp add: tie_disc_def title_eval)
  have "(''0'', 700) \<in> set (map (\<lambda>l. (record_title l, record_size l)) (size_records tie_disc))"
    by (simp add: recs)
  then obtain l where "l \<in> set (size_records tie_disc)" and "record_size l = 700"
    by auto
  then have pos: "\<exists>l \<in> set (size_records tie_disc). 0 < record_size l"
    by (intro bexI [of _ l]) simp_all
  have "info_process tie_disc (info_command ''D'') = Inr \<lparr>returncode = 0, stdout = tie_disc\<rparr>"
    by (simp add: info_process_def)
  moreover have "tie_disc \<noteq> []" by (simp add: tie_disc_def)
  ultimately have "\<exists>i < length (size_records tie_disc).
      get_largest_title (info_process tie_disc) ''D''
      = Inr (StrIndex (record_title (size_records tie_disc ! i)),
             record_size (size_records tie_disc ! i))"
    using largest_title_selected [THEN conjunct1, rule_format,
        of "info_process tie_disc" "''D''" "\<lparr>returncode = 0, stdout = tie_disc\<rparr>"] pos
    by auto
  with recs val show ?thesis by blast
qed

text \<open>
  A disc-info text with one file size record, of size 0: the record has the greatest
  size of all, and the selection raises.
\<close>

theorem zero_size_record_not_selected:
  "map (\<lambda>l. (record_title l, record_size l)) (size_records (''TINFO:0,11,0,'' @ quoted ''0''))
     = [(''0'', 0)] \<and>
   get_largest_title (info_process (''TINFO:0,11,0,'' @ quoted ''0'')) ''D''
     = Inl (Exception ''Could not find any titles on the DVD.'')"
  by (simp add: title_eval)

text \<open>
  C4, as the code has it. For every disc-info text in which every file size record has
  the parsed size 0 (the query having exited with 0 and written something),
  \<open>get_largest_title\<close> raises \<open>Could not find any titles on the DVD.\<close>: a record
  of size 0 is never greater than the initial size 0, so no title is selected.
\<close>

theorem all_zero_disc_fails:
  assumes "subprocess_run (info_command drive_letter) = Inr result"
    and "returncode result = 0" and "stdout result \<noteq> []"
    and "\<forall>l \<in> set (size_records (stdout result)). record_size l = 0"
  shows "get_largest_title subprocess_run drive_letter =
           Inl (Exception ''Could not find any titles on the DVD.'')"
  using assms(4)
  by (intro selection_nonpositive [of subprocess_run drive_letter result, OF assms(1-3)]) simp

theorem all_zero_disc_fails_witness:
  "map record_size (size_records blank_disc) = [0, 0, 0] \<and>
   get_largest_title (info_process blank_disc) ''D'' =
     Inl (Exception ''Could not find any titles on the DVD.'')"
proof -
  have sizes: "map record_size (size_records blank_disc) = [0, 0, 0]"
    by (simp add: blank_disc_def title_eval)
  have "set (map record_size (size_records blank_disc)) = {0}"
    by (simp only: sizes) simp
  then have zero: "\<forall>l \<in> set (size_records blank_disc). record_size l = 0"
    by auto
  have "get_largest_title (info_process blank_disc) ''D'' =
          Inl (Exception ''Could not find any titles on the DVD.'')"
    using all_zero_disc_fails [of "info_process blank_disc" "''D''"
        "\<lparr>returncode = 0, stdout = blank_disc\<rparr>"] zero
    by (simp add: info_process_def blank_disc_def)
  with sizes show ?thesis by simp
qed

text \<open>
  A disc-info text with two file size records, both of size 0: the selection raises.
\<close>

theorem all_zero_disc_raises:
  "map (\<lambda>l. (record_title l, record_size l)) (size_records zero_disc) = [(''0'', 0), (''1'', 0)] \<and>
   info_process zero_disc (info_command ''D'') = Inr \<lparr>returncode = 0, stdout = zero_disc\<rparr> \<and>
   get_largest_title (info_process zero_disc) ''D'' =
     Inl (Exception ''Could not find any titles on the DVD.'')"
  by (simp add: zero_disc_def title_eval)

text \<open>
  C8, as the code has it. \<open>get_largest_title\<close> raises exactly when the disc-info query
  cannot be run, or exits with a code other than 0, or writes nothing, or writes a text
  with no file size record of a parsed size above 0; in every other case it returns.
\<close>

theorem selection_fails_iff:
  "(\<exists>e. get_largest_title subprocess_run drive_letter = Inl e) =
   (case subprocess_run (info_command drive_letter) of
      Inl e \<Rightarrow> True
    | Inr result \<Rightarrow>
        returncode result \<noteq> 0 \<or> stdout result = [] \<or>
        (\<forall>l \<in> set (size_records (stdout result)). record_size l \<le> 0))"
proof (cases "subprocess_run (info_command drive_letter)")
  case (Inl e)
  then show ?thesis by (simp add: get_largest_title_def)
next
  case (Inr result)
  show ?thesis
  proof (cases "returncode result \<noteq> 0 \<or> stdout result = []")
    case True
    then show ?thesis using Inr by (auto simp: get_largest_title_def)
  next
    case False
    then have ok: "returncode result = 0" "stdout result \<noteq> []" by simp_all
    show ?thesis
    proof (cases "\<forall>l \<in> set (size_records (stdout result)). record_size l \<le> 0")
      case True
      with selection_nonpositive [of subprocess_run drive_letter result, OF Inr ok]
      show ?thesis using Inr by simp
    next
      case no: False
      then have "\<exists>l \<in> set (size_records (stdout result)). 0 < record_size l"
        by (auto simp: not_le)
      from selection_positive [of subprocess_run drive_letter result, OF Inr ok this]
      obtain v where "get_largest_title subprocess_run drive_letter = Inr v" by blast
      then show ?thesis using Inr ok no by simp
    qed
  qed
qed

theorem selection_fails_iff_witness:
  "(\<exists>e. get_largest_title (info_process no_record_disc) ''D'' = Inl e) \<and>
   size_records no_record_disc = [] \<and>
   \<not> (\<exists>e. get_largest_title (info_process tie_disc) ''D'' = Inl e) \<and>
   (\<exists>e. get_largest_title (\<lambda>argv. Inl (OSError ''No such file'')) ''D'' = Inl e) \<and>
   (\<exists>e. get_largest_title (\<lambda>argv. Inr \<lparr>returncode = 1, stdout = tie_disc\<rparr>) ''D'' = Inl e)"
proof -
  have none: "size_records no_record_disc = []"
    by (simp add: no_record_disc_def title_eval)
  have a: "\<exists>e. get_largest_title (info_process no_record_disc) ''D'' = Inl e"
    unfolding selection_fails_iff by (simp add: info_process_def none)
  have "map record_size (size_records tie_disc) = [700, 900, 900]"
    by (simp add: tie_disc_def title_eval)
  then have "700 \<in> record_size ` set (size_records tie_disc)"
    by (metis list.set_intros(1) set_map)
  then obtain l where "l \<in> set (size_records tie_disc)" and "record_size l = 700"
    by auto
  then have "\<not> (\<forall>l \<in> set (size_records tie_disc). record_size l \<le> 0)"
    by (intro notI) (drule bspec [of _ _ l], simp_all)
  then have b: "\<not> (\<exists>e. get_largest_title (info_process tie_disc) ''D'' = Inl e)"
    unfolding selection_fails_iff by (simp add: info_process_def tie_disc_def)
  have c: "\<exists>e. get_largest_title (\<lambda>argv. Inl (OSError ''No such file'')) ''D'' = Inl e"
    unfolding selection_fails_iff by simp
  have d: "\<exists>e. get_largest_title (\<lambda>argv. Inr \<lparr>returncode = 1, stdout = tie_disc\<rparr>) ''D'' = Inl e"
    unfolding selection_fails_iff by simp
  from a none b c d show ?thesis by blast
qed

text \<open>
  A query that exits with 0 and writes one file size record, of a size that is not a
  number: none of the three conditions of the claim holds, and the selection raises.
\<close>

theorem unreadable_size_disc_raises:
  "info_process unreadable_size_disc (info_command ''D'') =
     Inr \<lparr>returncode = 0, stdout = unreadable_size_disc\<rparr> \<and>
   unreadable_size_disc \<noteq> [] \<and>
   length (size_records unreadable_size_disc) = 1 \<and>
   get_largest_title (info_process unreadable_size_disc) ''D'' =
     Inl (Exception ''Could not find any titles on the DVD.'')"
  by (simp add: unreadable_size_disc_def title_eval)


lemma scan_size_nonneg: "0 \<le> snd st \<Longrightarrow> 0 \<le> snd (foldl scan_line st ls)"
proof (induction ls arbitrary: st)
  case Nil
  then show ?case by simp
next
  case (Cons l ls)
  have "0 \<le> snd (scan_line st l)"
    using Cons.prems by (simp add: scan_line_eq)
  from Cons.IH [OF this] show ?case by simp
qed

text \<open>
  C9. A file size record whose size field \<open>int()\<close> rejects counts as size 0: the loop
  body raises nothing and leaves every candidate of a size of at least 0 as it is, so
  the loop ends in the same state as without the record.
\<close>

theorem malformed_size_is_zero:
  assumes "is_size_record line" and "py_int (record_size_str line) = None"
  shows "record_size line = 0 \<and>
         (\<forall>candidate sz. 0 \<le> sz \<longrightarrow> scan_line (candidate, sz) line = (candidate, sz)) \<and>
         scan_lines (before @ line # after) = scan_lines (before @ after)"
proof -
  have zero: "record_size line = 0"
    using assms(2) by (simp add: record_size_def)
  have keep: "scan_line st line = st" if "0 \<le> snd st" for st
    using that zero by (simp add: scan_line_eq)
  have "0 \<le> snd (foldl scan_line (IntIndex (- 1), 0) before)"
    by (rule scan_size_nonneg) simp
  then have "scan_lines (before @ line # after) = scan_lines (before @ after)"
    by (simp add: scan_lines_def keep)
  with zero keep show ?thesis by simp
qed

theorem malformed_size_is_zero_witness:
  "is_size_record (''TINFO:3,11,0,'' @ quoted ''12x'') \<and>
   py_int (record_size_str (''TINFO:3,11,0,'' @ quoted ''12x'')) = None \<and>
   record_size (''TINFO:3,11,0,'' @ quoted ''12x'') = 0 \<and>
   scan_line (StrIndex ''1'', 900) (''TINFO:3,11,0,'' @ quoted ''12x'') = (StrIndex ''1'', 900) \<and>
   scan_lines [''TINFO:1,11,0,'' @ quoted ''900'', ''TINFO:3,11,0,'' @ quoted ''12x'',
               ''TINFO:4,11,0,'' @ quoted ''5'']
     = scan_lines [''TINFO:1,11,0,'' @ quoted ''900'', ''TINFO:4,11,0,'' @ quoted ''5'']"
proof -
  have a: "is_size_record (''TINFO:3,11,0,'' @ quoted ''12x'')"
    by (simp add: title_eval)
  have b: "py_int (record_size_str (''TINFO:3,11,0,'' @ quoted ''12x'')) = None"
    by (simp add: title_eval)
  from malformed_size_is_zero [OF a b, of "[''TINFO:1,11,0,'' @ quoted ''900'']"
      "[''TINFO:4,11,0,'' @ quoted ''5'']"] a b
  show ?thesis by simp
qed

section \<open>The retrying executor\<close>

lemma run_from_step:
  "run_from i func w =
     (if i < ATTEMPTS + 1 then
        (case fn_call func (env w) of
           (Inr output, e') \<Rightarrow>
             (Returned output, w\<lparr>env := e', invoked := invoked w @ [fn_name func]\<rparr>)
         | (Inl e, e') \<Rightarrow>
             if i < ATTEMPTS then
               run_from (Suc i) func (w\<lparr>env := e', invoked := invoked w @ [fn_name func]\<rparr>)
             else
               (case error_handler (failure_report (fn_name func) e)
                       (w\<lparr>env := e', invoked := invoked w @ [fn_name func]\<rparr>) of
                  (status, w') \<Rightarrow> (Exited status, w')))
      else (ReturnedNone, w))"
  by (rule run_from.simps)

lemma attempt_0: "attempt func 0 e = fst (fn_call func e)"
  by (simp add: attempt_def)

lemma attempt_Suc: "attempt func (Suc k) e = attempt func k (snd (fn_call func e))"
  by (simp add: attempt_def)

lemma run_from_success:
  assumes "i + k \<le> ATTEMPTS" and "\<forall>j < k. isl (attempt func j (env w))"
    and "attempt func k (env w) = Inr v"
  shows "run_from i func w =
           (Returned v, w\<lparr>env := env_after func (Suc k) (env w),
                          invoked := invoked w @ replicate (Suc k) (fn_name func)\<rparr>)"
  using assms
proof (induction k arbitrary: i w)
  case 0
  then obtain e' where call: "fn_call func (env w) = (Inr v, e')"
    by (cases "fn_call func (env w)") (simp add: attempt_0)
  from 0 have "i < ATTEMPTS + 1" by simp
  then show ?case by (subst run_from_step) (simp add: call)
next
  case (Suc k)
  from Suc.prems(2) have "isl (attempt func 0 (env w))" by blast
  then obtain e e' where call: "fn_call func (env w) = (Inl e, e')"
    by (cases "fn_call func (env w)") (auto simp: attempt_0 isl_def)
  let ?w1 = "w\<lparr>env := e', invoked := invoked w @ [fn_name func]\<rparr>"
  from Suc.prems(1) have i: "i < ATTEMPTS" "Suc i + k \<le> ATTEMPTS" by simp_all
  have shift: "attempt func j (env ?w1) = attempt func (Suc j) (env w)" for j
    using call by (simp add: attempt_Suc)
  have "\<forall>j < k. isl (attempt func j (env ?w1))"
    using Suc.prems(2) unfolding shift by auto
  moreover have "attempt func k (env ?w1) = Inr v"
    using Suc.prems(3) call by (simp add: attempt_Suc)
  ultimately have "run_from (Suc i) func ?w1 =
      (Returned v, ?w1\<lparr>env := env_after func (Suc k) (env ?w1),
                       invoked := invoked ?w1 @ replicate (Suc k) (fn_name func)\<rparr>)"
    using Suc.IH [OF i(2)] by blast
  then show ?case
    using i(1) by (subst run_from_step) (simp add: call replicate_app_Cons_same)
qed

lemma run_from_exhausted:
  assumes "i + k = ATTEMPTS" and "\<forall>j \<le> k. isl (attempt func j (env w))"
  shows "run_from i func w =
           (case error_handler
                   (failure_report (fn_name func) (projl (attempt func k (env w))))
                   (w\<lparr>env := env_after func (Suc k) (env w),
                      invoked := invoked w @ replicate (Suc k) (fn_name func)\<rparr>) of
              (status, w') \<Rightarrow> (Exited status, w'))"
  using assms
proof (induction k arbitrary: i w)
  case 0
  then obtain e e' where call: "fn_call func (env w) = (Inl e, e')"
    by (cases "fn_call func (env w)") (auto simp: attempt_0 isl_def)
  from 0 have "i = ATTEMPTS" by simp
  then show ?case by (subst run_from_step) (simp add: call attempt_0)
next
  case (Suc k)
  from Suc.prems(2) have "isl (attempt func 0 (env w))" by blast
  then obtain e e' where call: "fn_call func (env w) = (Inl e, e')"
    by (cases "fn_call func (env w)") (auto simp: attempt_0 isl_def)
  let ?w1 = "w\<lparr>env := e', invoked := invoked w @ [fn_name func]\<rparr>"
  from Suc.prems(1) have i: "i < ATTEMPTS" "Suc i + k = ATTEMPTS" by simp_all
  have shift: "attempt func j (env ?w1) = attempt func (Suc j) (env w)" for j
    using call by (simp add: attempt_Suc)
  have "\<forall>j \<le> k. isl (attempt func j (env ?w1))"
    using Suc.prems(2) unfolding shift by auto
  from Suc.IH [OF i(2) this] show ?case
    using i(1) call by (subst run_from_step) (simp add: replicate_app_Cons_same attempt_Suc)
qed

lemma error_handler_effects:
  "fst (error_handler message w) = 1"
  "env (snd (error_handler message w)) = env w"
  "invoked (snd (error_handler message w)) = invoked w"
  "requests (snd (error_handler message w)) = requests w @ [(''Movie ERROR'', message)]"
  "console (snd (error_handler message w)) =
     console w @ message #
       (case network w of
          Some e # rest \<Rightarrow> [''Failed to send error notification: '' @ str_exn e]
        | _ \<Rightarrow> [])"
  by (auto simp: error_handler_def send_message_def print_line_def Let_def
      split: list.splits option.splits)



lemma error_handler_exits: "error_handler message w = (1, snd (error_handler message w))"
  by (simp add: error_handler_def Let_def split: prod.splits)

lemma run_exhausted:
  assumes "\<forall>j < ATTEMPTS. isl (attempt func j (env w))"
  shows "run func w =
           (Exited 1,
            snd (error_handler
                   (failure_report (fn_name func) (projl (attempt func (ATTEMPTS - 1) (env w))))
                   (w\<lparr>env := env_after func ATTEMPTS (env w),
                      invoked := invoked w @ replicate ATTEMPTS (fn_name func)\<rparr>)))"
proof -
  have three: "ATTEMPTS = Suc 2" by (simp add: ATTEMPTS_def)
  have fails: "\<forall>j \<le> 2. isl (attempt func j (env w))"
    using assms by (simp add: three)
  have "1 + 2 = ATTEMPTS" by (simp add: three)
  from this fails have "run_from 1 func w =
      (case error_handler
              (failure_report (fn_name func) (projl (attempt func 2 (env w))))
              (w\<lparr>env := env_after func (Suc 2) (env w),
                 invoked := invoked w @ replicate (Suc 2) (fn_name func)\<rparr>) of
         (status, w') \<Rightarrow> (Exited status, w'))"
    by (rule run_from_exhausted)
  also have "\<dots> = (Exited 1,
      snd (error_handler
             (failure_report (fn_name func) (projl (attempt func 2 (env w))))
             (w\<lparr>env := env_after func (Suc 2) (env w),
                invoked := invoked w @ replicate (Suc 2) (fn_name func)\<rparr>)))"
    by (subst error_handler_exits) (simp only: prod.case)
  finally show ?thesis
    unfolding run_def three by simp
qed


lemma run_from_invoked:
  "\<exists>n \<le> ATTEMPTS + 1 - i.
     invoked (snd (run_from i func w)) = invoked w @ replicate n (fn_name func)"
proof (induction "ATTEMPTS + 1 - i" arbitrary: i w)
  case 0
  then have "\<not> i < ATTEMPTS + 1" by simp
  then have "run_from i func w = (ReturnedNone, w)"
    by (subst run_from_step) simp
  then show ?case by simp
next
  case (Suc d)
  then have i: "i < ATTEMPTS + 1" by simp
  obtain r e' where call: "fn_call func (env w) = (r, e')"
    by (cases "fn_call func (env w)")
  let ?w1 = "w\<lparr>env := e', invoked := invoked w @ [fn_name func]\<rparr>"
  have one: "1 \<le> ATTEMPTS + 1 - i" using i by simp
  show ?case
  proof (cases r)
    case (Inr v)
    have "run_from i func w = (Returned v, ?w1)"
      using i call Inr by (subst run_from_step) simp
    then have "invoked (snd (run_from i func w)) = invoked w @ replicate 1 (fn_name func)"
      by simp
    with one show ?thesis by blast
  next
    case (Inl e)
    show ?thesis
    proof (cases "i < ATTEMPTS")
      case False
      have "run_from i func w =
              (Exited 1, snd (error_handler (failure_report (fn_name func) e) ?w1))"
        using i call Inl False
        by (subst run_from_step, subst error_handler_exits) simp
      then have "invoked (snd (run_from i func w)) = invoked w @ replicate 1 (fn_name func)"
        by (simp add: error_handler_effects(3))
      with one show ?thesis by blast
    next
      case True
      have eq: "run_from i func w = run_from (Suc i) func ?w1"
        using i call Inl True by (subst run_from_step) simp
      have "d = ATTEMPTS + 1 - Suc i" using Suc.hyps(2) by simp
      from Suc.hyps(1) [OF this, of ?w1]
      obtain n where n: "n \<le> ATTEMPTS + 1 - Suc i"
        "invoked (snd (run_from (Suc i) func ?w1)) = invoked ?w1 @ replicate n (fn_name func)"
        by blast
      have "invoked (snd (run_from i func w)) = invoked w @ replicate (Suc n) (fn_name func)"
        unfolding eq n(2) by (simp add: replicate_app_Cons_same)
      moreover have "Suc n \<le> ATTEMPTS + 1 - i" using n(1) True by simp
      ultimately show ?thesis by blast
    qed
  qed
qed


lemma failure_report_text:
  "failure_report name e =
     ''Error running: '' @ name @ [CHR 0x0A] @ ''Attempts: 3'' @ [CHR 0x0A] @ ''Error: '' @ str_exn e"
  by (simp add: failure_report_def ATTEMPTS_def str_nat.simps)

text \<open>
  C2. A function that raises on its first \<open>k\<close> calls, \<open>k\<close> below \<open>ATTEMPTS\<close>, and returns
  \<open>v\<close> on the next one: \<open>run\<close> returns \<open>v\<close>, has called the function \<open>k + 1\<close> times and
  has printed and posted nothing. With \<open>k = 0\<close>: a function that returns at once is
  called once.
\<close>

theorem retry_until_success:
  assumes "k < ATTEMPTS" and "\<forall>j < k. isl (attempt func j (env w))"
    and "attempt func k (env w) = Inr v"
  shows "run func w =
           (Returned v, w\<lparr>env := env_after func (Suc k) (env w),
                          invoked := invoked w @ replicate (Suc k) (fn_name func)\<rparr>)"
proof -
  from assms(1) have "1 + k \<le> ATTEMPTS" by simp
  from run_from_success [OF this assms(2,3)] show ?thesis
    by (simp add: run_def)
qed

theorem retry_until_success_witness:
  "run (flaky 2) (fresh_world 0) =
     (Returned 20, \<lparr>env = 3, console = [], requests = [], network = [],
                    invoked = [''rip_dvd'', ''rip_dvd'', ''rip_dvd'']\<rparr>) \<and>
   run (flaky 0) (fresh_world 0) =
     (Returned 0, \<lparr>env = 1, console = [], requests = [], network = [],
                   invoked = [''rip_dvd'']\<rparr>)"
proof -
  have a0: "attempt (flaky 2) 0 0 = Inl (Exception ''MakeMKV returned an error during ripping.'')"
    and a1: "attempt (flaky 2) (Suc 0) 0 = Inl (Exception ''MakeMKV returned an error during ripping.'')"
    and a2: "attempt (flaky 2) 2 0 = Inr 20"
    by (simp_all add: attempt_def flaky_def numeral_2_eq_2)
  have fails: "\<forall>j < 2. isl (attempt (flaky 2) j (env (fresh_world 0)))"
    by (simp add: fresh_world_def less_2_cases_iff a0 a1)
  have "run (flaky 2) (fresh_world 0) =
          (Returned 20, (fresh_world 0)\<lparr>env := env_after (flaky 2) (Suc 2) (env (fresh_world 0)),
             invoked := invoked (fresh_world 0) @ replicate (Suc 2) (fn_name (flaky 2))\<rparr>)"
    using retry_until_success [of 2 "flaky 2" "fresh_world 0" 20] fails
    by (simp add: ATTEMPTS_def fresh_world_def a2)
  then have first: "run (flaky 2) (fresh_world 0) =
     (Returned 20, \<lparr>env = 3, console = [], requests = [], network = [],
                    invoked = [''rip_dvd'', ''rip_dvd'', ''rip_dvd'']\<rparr>)"
    by (simp add: fresh_world_def flaky_def numeral_2_eq_2)
  have "run (flaky 0) (fresh_world 0) =
          (Returned 0, (fresh_world 0)\<lparr>env := env_after (flaky 0) (Suc 0) (env (fresh_world 0)),
             invoked := invoked (fresh_world 0) @ replicate (Suc 0) (fn_name (flaky 0))\<rparr>)"
    using retry_until_success [of 0 "flaky 0" "fresh_world 0" 0]
    by (simp add: ATTEMPTS_def fresh_world_def attempt_def flaky_def)
  then have second: "run (flaky 0) (fresh_world 0) =
     (Returned 0, \<lparr>env = 1, console = [], requests = [], network = [],
                   invoked = [''rip_dvd'']\<rparr>)"
    by (simp add: fresh_world_def flaky_def)
  from first second show ?thesis by simp
qed

text \<open>
  What \<open>run\<close> does with a function that raises at each of its \<open>ATTEMPTS\<close> calls: it
  leaves by \<open>sys.exit(1)\<close>, having called the function \<open>ATTEMPTS\<close> times, printed the
  report and posted it once under \<open>Movie ERROR\<close>; a post that fails is printed as well.
\<close>

lemma run_exhausted_effects:
  assumes "\<forall>j < ATTEMPTS. isl (attempt func j (env w))"
  shows "fst (run func w) = Exited 1"
    and "invoked (snd (run func w)) = invoked w @ replicate ATTEMPTS (fn_name func)"
    and "requests (snd (run func w)) =
           requests w @ [(''Movie ERROR'',
             failure_report (fn_name func) (projl (attempt func (ATTEMPTS - 1) (env w))))]"
    and "console (snd (run func w)) =
           console w @
           failure_report (fn_name func) (projl (attempt func (ATTEMPTS - 1) (env w))) #
           (case network w of
              Some e # rest \<Rightarrow> [''Failed to send error notification: '' @ str_exn e]
            | _ \<Rightarrow> [])"
    and "env (snd (run func w)) = env_after func ATTEMPTS (env w)"
  unfolding run_exhausted [OF assms] by (simp_all add: error_handler_effects)

section \<open>The progress monitor\<close>

lemma poll_tick_cases:
  "(progress_bar (snd (poll_tick output_directory t m)) = progress_bar m \<and>
    current_progress (snd (poll_tick output_directory t m)) = current_progress m) \<or>
   (\<exists>p. current_progress m < p \<and>
        current_progress (snd (poll_tick output_directory t m)) = p \<and>
        bar_shown (progress_bar (snd (poll_tick output_directory t m))) =
          bar_shown (progress_bar m) @ [p])"
  by (auto simp: poll_tick_def refresh_def Let_def split: sum.splits)

lemma poll_loop_shown:
  "\<exists>new. bar_shown (progress_bar (snd (poll_loop output_directory ts m))) =
            bar_shown (progress_bar m) @ new \<and>
         sorted_wrt (<) new \<and> (\<forall>v \<in> set new. current_progress m < v)"
proof (induction ts arbitrary: m)
  case Nil
  show ?case by simp
next
  case (Cons t ts)
  obtain r m' where tick: "poll_tick output_directory t m = (r, m')"
    by (cases "poll_tick output_directory t m")
  show ?case
  proof (cases r)
    case (Some e)
    with tick poll_tick_cases [of output_directory t m] show ?thesis
      by auto
  next
    case None
    from Cons.IH [of m'] obtain new where new:
      "bar_shown (progress_bar (snd (poll_loop output_directory ts m'))) =
         bar_shown (progress_bar m') @ new"
      "sorted_wrt (<) new" "\<forall>v \<in> set new. current_progress m' < v"
      by blast
    have loop: "poll_loop output_directory (t # ts) m = poll_loop output_directory ts m'"
      using tick None by simp
    from poll_tick_cases [of output_directory t m] tick
    consider (same) "progress_bar m' = progress_bar m" "current_progress m' = current_progress m"
      | (more) p where "current_progress m < p" "current_progress m' = p"
          "bar_shown (progress_bar m') = bar_shown (progress_bar m) @ [p]"
      by auto
    then show ?thesis
    proof cases
      case same
      with new show ?thesis unfolding loop by auto
    next
      case more
      have "sorted_wrt (<) (p # new)"
        using new(2,3) more(2) by simp
      moreover have "\<forall>v \<in> set (p # new). current_progress m < v"
        using new(3) more(1,2) by auto
      moreover have "bar_shown (progress_bar (snd (poll_loop output_directory ts m'))) =
                       bar_shown (progress_bar m) @ p # new"
        using new(1) more(3) by simp
      ultimately show ?thesis unfolding loop by blast
    qed
  qed
qed

text \<open>
  C6. Whatever sizes the passes observe, the values the monitor displays on the bar it
  was given come after what the bar had shown before, and they are in non-decreasing
  order (each one is in fact greater than the one before): no value is lower than a value
  displayed earlier in the same run.
\<close>

theorem reported_progress_monotone:
  "bar_shown (progress_bar
       (snd (poll_file_size_progress expected_file_size output_directory progress stop_event))) =
     bar_shown progress @
     reported progress
       (snd (poll_file_size_progress expected_file_size output_directory progress stop_event)) \<and>
   sorted (reported progress
       (snd (poll_file_size_progress expected_file_size output_directory progress stop_event))) \<and>
   distinct (reported progress
       (snd (poll_file_size_progress expected_file_size output_directory progress stop_event)))"
proof -
  let ?m0 = "\<lparr>current_progress = 0, progress_bar = progress, printed = []\<rparr>"
  from poll_loop_shown [of output_directory stop_event ?m0]
  obtain new where new:
    "bar_shown (progress_bar (snd (poll_loop output_directory stop_event ?m0))) =
       bar_shown progress @ new"
    "sorted_wrt (<) new"
    by auto
  have "reported progress (snd (poll_loop output_directory stop_event ?m0)) = new"
    by (simp add: reported_def new(1))
  moreover have "sorted new" "distinct new"
    using new(2) by (simp_all add: strict_sorted_iff)
  ultimately show ?thesis
    using new(1) by (simp add: poll_file_size_progress_def)
qed

lemmas poll_eval =
  poll_file_size_progress_def poll_tick_def os_path_join_def posix_join_def tqdm_def refresh_def
  steady_tick_def vanishing_tick_def late_vanishing_tick_def reported_def Let_def

theorem reported_progress_monotone_witness:
  "reported (tqdm 1000)
     (snd (poll_file_size_progress 1000 ''temp/D'' (tqdm 1000)
             [steady_tick 500, steady_tick 400, steady_tick 700, steady_tick 700]))
     = [500, 700] \<and>
   sorted (reported (tqdm 1000)
     (snd (poll_file_size_progress 1000 ''temp/D'' (tqdm 1000)
             [steady_tick 500, steady_tick 400, steady_tick 700, steady_tick 700])))"
proof -
  have "reported (tqdm 1000)
     (snd (poll_file_size_progress 1000 ''temp/D'' (tqdm 1000)
             [steady_tick 500, steady_tick 400, steady_tick 700, steady_tick 700]))
     = [500, 700]"
    by (simp add: poll_eval)
  with reported_progress_monotone [of 1000 "''temp/D''" "tqdm 1000"
      "[steady_tick 500, steady_tick 400, steady_tick 700, steady_tick 700]"]
  show ?thesis by blast
qed

text \<open>
  C5 fails on the code. The call of \<open>max\<close> on line 81 reads the size of every listed
  file before the \<open>try\<close> of line 82 begins. In the first run below the file is gone at
  that reading: the exception leaves \<open>poll_file_size_progress\<close>, nothing is printed, and
  the pass that would have found 700 bytes is never made. In the second run the file
  is gone only at the reading of line 83: the error is printed, the pass is skipped and
  the loop goes on, as the claim says of every such error.
\<close>

theorem monitor_dies_on_getsize_error:
  "poll_file_size_progress 1000 ''temp/D'' (tqdm 1000) [vanishing_tick, steady_tick 700] =
     (Some (OSError ''[Errno 2] No such file or directory''),
      \<lparr>current_progress = 0, progress_bar = tqdm 1000, printed = []\<rparr>) \<and>
   poll_file_size_progress 1000 ''temp/D'' (tqdm 1000) [late_vanishing_tick, steady_tick 700] =
     (None,
      \<lparr>current_progress = 700,
       progress_bar = refresh ((tqdm 1000)\<lparr>bar_n := 700\<rparr>),
       printed = [''Error checking file size: [Errno 2] No such file or directory'']\<rparr>)"
  by (simp add: poll_eval)

section \<open>The rip\<close>

lemma poll_tick_total:
  "bar_total (progress_bar (snd (poll_tick output_directory t m))) = bar_total (progress_bar m)"
  by (simp add: poll_tick_def refresh_def Let_def split: sum.splits)

lemma poll_loop_total:
  "bar_total (progress_bar (snd (poll_loop output_directory ts m))) = bar_total (progress_bar m)"
proof (induction ts arbitrary: m)
  case Nil
  show ?case by simp
next
  case (Cons t ts)
  obtain r m' where tick: "poll_tick output_directory t m = (r, m')"
    by (cases "poll_tick output_directory t m")
  have "bar_total (progress_bar m') = bar_total (progress_bar m)"
    using poll_tick_total [of output_directory t m] tick by simp
  with Cons.IH [of m'] tick show ?case
    by (cases r) simp_all
qed

lemma final_bar:
  "bar_n (close_bar (refresh (b\<lparr>bar_n := expected\<rparr>))) = expected"
  "bar_closed (close_bar (refresh (b\<lparr>bar_n := expected\<rparr>)))"
  "last (bar_shown (close_bar (refresh (b\<lparr>bar_n := expected\<rparr>)))) = expected"
  "bar_total (close_bar (refresh (b\<lparr>bar_n := expected\<rparr>))) = bar_total b"
  by (simp_all add: close_bar_def refresh_def)

text \<open>
  C10. Once the process has run to its end, whatever its exit code, the bar that
  \<open>rip_dvd\<close> leaves behind stands at the expected size, which is its total, that value is
  the last one displayed, and the bar is closed. With an exit code other than 0 the
  function then raises \<open>MakeMKV returned an error during ripping.\<close> and renames nothing:
  the display is at 100 percent although the rip has failed.
\<close>

theorem bar_forced_before_exit_code:
  assumes "popen x (rip_command drive_letter title_index output_directory) = Inr exit_code"
  shows "\<exists>b. fx_bar (snd (rip_dvd title_index output_file_name output_directory
                         expected_file_size drive_letter x)) = Some b \<and>
             bar_n b = expected_file_size \<and> bar_total b = expected_file_size \<and>
             last (bar_shown b) = expected_file_size \<and> bar_closed b \<and>
             (exit_code \<noteq> 0 \<longrightarrow>
                fst (rip_dvd title_index output_file_name output_directory
                       expected_file_size drive_letter x) =
                  Inl (Exception ''MakeMKV returned an error during ripping.'') \<and>
                renamed (snd (rip_dvd title_index output_file_name output_directory
                       expected_file_size drive_letter x)) = [])"
proof -
  obtain died m where poll:
    "poll_file_size_progress expected_file_size output_directory (tqdm expected_file_size)
       (ticks x) = (died, m)"
    by (cases "poll_file_size_progress expected_file_size output_directory
                 (tqdm expected_file_size) (ticks x)")
  let ?b = "close_bar (refresh ((progress_bar m)\<lparr>bar_n := expected_file_size\<rparr>))"
  have "bar_total (progress_bar m) = expected_file_size"
    using poll_loop_total [of output_directory "ticks x"
        "\<lparr>current_progress = 0, progress_bar = tqdm expected_file_size, printed = []\<rparr>"] poll
    by (simp add: poll_file_size_progress_def tqdm_def)
  then have total: "bar_total ?b = expected_file_size"
    by (simp add: final_bar)
  have bar: "fx_bar (snd (rip_dvd title_index output_file_name output_directory
                         expected_file_size drive_letter x)) = Some ?b"
    using assms poll
    by (simp add: rip_dvd_def Let_def split: sum.splits option.splits)
  have failed: "exit_code \<noteq> 0 \<Longrightarrow>
      rip_dvd title_index output_file_name output_directory expected_file_size drive_letter x =
        (Inl (Exception ''MakeMKV returned an error during ripping.''),
         \<lparr>spawned = [rip_command drive_letter title_index output_directory],
          fx_bar = Some ?b, thread_output = printed m, renamed = [], monitors_running = 0\<rparr>)"
    using assms poll by (simp add: rip_dvd_def Let_def)
  from bar total failed show ?thesis
    by (intro exI [of _ ?b]) (simp add: final_bar)
qed


lemmas rip_eval =
  rip_dvd_def rip_command_def rip_world_def three_files_def three_mtimes_def sorted_reverse_def
  poll_file_size_progress_def poll_tick_def os_path_join_def os_path_basename_def posix_join_def
  posix_basename_def tqdm_def
  refresh_def close_bar_def steady_tick_def Let_def

theorem bar_forced_before_exit_code_witness:
  "rip_dvd ''1'' ''film'' ''temp/D'' 1000 ''D'' (rip_world 1 three_files three_mtimes) =
     (Inl (Exception ''MakeMKV returned an error during ripping.''),
      \<lparr>spawned = [[''./makemkvcon64.exe'', ''-r'', ''mkv'', ''dev:D:'', ''1'', ''temp/D'']],
       fx_bar = Some \<lparr>bar_total = 1000, bar_n = 1000, bar_shown = [0, 300, 900, 1000],
                      bar_closed = True\<rparr>,
       thread_output = [], renamed = [], monitors_running = 0\<rparr>) \<and>
   (\<exists>b. fx_bar (snd (rip_dvd ''1'' ''film'' ''temp/D'' 1000 ''D''
                       (rip_world 1 three_files three_mtimes))) = Some b \<and>
        bar_n b = 1000 \<and> bar_total b = 1000 \<and> last (bar_shown b) = 1000 \<and> bar_closed b)"
proof -
  have "popen (rip_world 1 three_files three_mtimes) (rip_command ''D'' ''1'' ''temp/D'') = Inr 1"
    by (simp add: rip_world_def)
  from bar_forced_before_exit_code [OF this, of "''film''" 1000]
  have "\<exists>b. fx_bar (snd (rip_dvd ''1'' ''film'' ''temp/D'' 1000 ''D''
                       (rip_world 1 three_files three_mtimes))) = Some b \<and>
        bar_n b = 1000 \<and> bar_total b = 1000 \<and> last (bar_shown b) = 1000 \<and> bar_closed b"
    by blast
  moreover have "rip_dvd ''1'' ''film'' ''temp/D'' 1000 ''D'' (rip_world 1 three_files three_mtimes) =
     (Inl (Exception ''MakeMKV returned an error during ripping.''),
      \<lparr>spawned = [[''./makemkvcon64.exe'', ''-r'', ''mkv'', ''dev:D:'', ''1'', ''temp/D'']],
       fx_bar = Some \<lparr>bar_total = 1000, bar_n = 1000, bar_shown = [0, 300, 900, 1000],
                      bar_closed = True\<rparr>,
       thread_output = [], renamed = [], monitors_running = 0\<rparr>)"
    by (simp add: rip_eval)
  ultimately show ?thesis by blast
qed

lemma last_insort_key:
  "sorted (map f zs) \<Longrightarrow>
   last (insort_key f y zs) = (if zs = [] \<or> f (last zs) < f y then y else last zs)"
proof (induction zs)
  case Nil
  show ?case by simp
next
  case (Cons z zs)
  then have IH: "last (insort_key f y zs) = (if zs = [] \<or> f (last zs) < f y then y else last zs)"
    by simp
  show ?case
  proof (cases "f y \<le> f z")
    case True
    have "f y \<le> f (last (z # zs))"
      using True Cons.prems by (cases "zs = []") (auto intro: order_trans)
    with True show ?thesis by (auto simp: not_less)
  next
    case False
    have "insort_key f y zs \<noteq> []" by (cases zs) simp_all
    with False show ?thesis using IH by (auto simp: not_le)
  qed
qed

lemma sort_key_Nil_iff: "sort_key f ys = [] \<longleftrightarrow> ys = []"
proof
  assume "sort_key f ys = []"
  then have "length (sort_key f ys) = 0" by simp
  then show "ys = []" by (simp only: length_sort length_0_conv)
qed simp

lemma last_sort_key_split:
  "ys \<noteq> [] \<Longrightarrow>
   \<exists>as bs. ys = as @ last (sort_key f ys) # bs \<and>
           (\<forall>a \<in> set as. f a \<le> f (last (sort_key f ys))) \<and>
           (\<forall>b \<in> set bs. f b < f (last (sort_key f ys)))"
proof (induction ys)
  case Nil
  then show ?case by simp
next
  case (Cons y ys)
  show ?case
  proof (cases "ys = []")
    case True
    then show ?thesis by (intro exI [of _ "[]"]) simp
  next
    case False
    let ?l = "last (sort_key f ys)"
    from Cons.IH [OF False] obtain as bs where split:
      "ys = as @ ?l # bs" "\<forall>a \<in> set as. f a \<le> f ?l" "\<forall>b \<in> set bs. f b < f ?l"
      by blast
    have nonempty: "sort_key f ys \<noteq> []"
      using False by (simp add: sort_key_Nil_iff)
    have step: "last (sort_key f (y # ys)) = (if f ?l < f y then y else ?l)"
      using last_insort_key [of f "sort_key f ys" y] nonempty by (simp add: sort_key_simps)
    show ?thesis
    proof (cases "f ?l < f y")
      case True
      have "\<forall>b \<in> set ys. f b < f y"
      proof
        fix b assume "b \<in> set ys"
        then have "b \<in> set as \<or> b = ?l \<or> b \<in> set bs"
          by (subst (asm) split(1)) auto
        then have "f b \<le> f ?l" using split(2,3) by (auto intro: less_imp_le)
        with True show "f b < f y" by simp
      qed
      then show ?thesis
        unfolding step using True by (intro exI [of _ "[]"] exI [of _ ys]) simp
    next
      case keep: False
      have "y # ys = (y # as) @ ?l # bs" using split(1) by simp
      moreover have "\<forall>a \<in> set (y # as). f a \<le> f ?l" using split(2) keep by (auto simp: not_less)
      ultimately show ?thesis
        unfolding step using keep split(3) by (intro exI [of _ "y # as"] exI [of _ bs]) simp
    qed
  qed
qed


lemma keys_of_Inr:
  "keys_of key xs = Inr kxs \<Longrightarrow> kxs = map (\<lambda>x. (projr (key x), x)) xs"
proof (induction xs arbitrary: kxs)
  case Nil
  then show ?case by simp
next
  case (Cons x xs)
  then show ?case by (auto split: sum.splits)
qed

lemma keys_of_all_read:
  "\<forall>x \<in> set xs. \<not> isl (key x) \<Longrightarrow> keys_of key xs = Inr (map (\<lambda>x. (projr (key x), x)) xs)"
proof (induction xs)
  case Nil
  show ?case by simp
next
  case (Cons x xs)
  then show ?case by (cases "key x") auto
qed

lemma sorted_reverse_first:
  assumes "sorted_reverse key xs = Inr zs" and "xs \<noteq> []"
  shows "\<exists>before after.
           xs = before @ (zs ! 0) # after \<and>
           (\<forall>q \<in> set before. projr (key q) < projr (key (zs ! 0))) \<and>
           (\<forall>q \<in> set after. projr (key q) \<le> projr (key (zs ! 0)))"
proof -
  define kxs where "kxs = map (\<lambda>x. (projr (key x), x)) xs"
  define S where "S = sort_key fst (rev kxs)"
  define l where "l = last S"
  from assms(1) obtain kxs' where "keys_of key xs = Inr kxs'"
    by (auto simp: sorted_reverse_def split: sum.splits)
  with keys_of_Inr [OF this] have keys: "keys_of key xs = Inr kxs"
    by (simp add: kxs_def)
  have zs: "zs = map snd (rev S)"
    using assms(1) keys by (simp add: sorted_reverse_def S_def)
  have ne: "rev kxs \<noteq> []" using assms(2) by (simp add: kxs_def)
  then have S_ne: "S \<noteq> []"
    by (simp add: S_def sort_key_Nil_iff)
  then have "zs \<noteq> []" by (simp add: zs)
  then have "zs ! 0 = hd zs" by (simp add: hd_conv_nth)
  also have "\<dots> = snd (hd (rev S))" using S_ne by (simp add: zs hd_map)
  also have "\<dots> = snd l" using S_ne by (simp add: hd_rev l_def)
  finally have first: "zs ! 0 = snd l" .
  from last_sort_key_split [OF ne, of fst] obtain as bs where split:
    "rev kxs = as @ l # bs"
    "\<forall>a \<in> set as. fst a \<le> fst l" "\<forall>b \<in> set bs. fst b < fst l"
    unfolding S_def [symmetric] l_def [symmetric] by blast
  have pair: "fst p = projr (key (snd p))" if "p \<in> set kxs" for p
    using that by (auto simp: kxs_def)
  have members: "set kxs = set as \<union> {l} \<union> set bs"
  proof -
    have "set (rev kxs) = set (as @ l # bs)" by (simp only: split(1))
    then show ?thesis by auto
  qed
  have top: "fst l = projr (key (zs ! 0))"
    using pair [of l] members first by simp
  have "rev (rev kxs) = rev (as @ l # bs)" by (simp only: split(1))
  then have "kxs = rev bs @ l # rev as" by simp
  then have "map snd kxs = map snd (rev bs) @ snd l # map snd (rev as)"
    by simp
  moreover have "map snd kxs = xs" by (simp add: kxs_def o_def)
  ultimately have xs: "xs = map snd (rev bs) @ (zs ! 0) # map snd (rev as)"
    by (simp add: first)
  have "\<forall>q \<in> set (map snd (rev bs)). projr (key q) < projr (key (zs ! 0))"
  proof
    fix q assume "q \<in> set (map snd (rev bs))"
    then obtain b where b: "b \<in> set bs" "q = snd b" by auto
    then have "b \<in> set kxs" using members by simp
    moreover from split(3) b(1) have "fst b < fst l" by blast
    ultimately show "projr (key q) < projr (key (zs ! 0))"
      using pair [of b] b(2) top by simp
  qed
  moreover have "\<forall>q \<in> set (map snd (rev as)). projr (key q) \<le> projr (key (zs ! 0))"
  proof
    fix q assume "q \<in> set (map snd (rev as))"
    then obtain a where a: "a \<in> set as" "q = snd a" by auto
    then have "a \<in> set kxs" using members by simp
    moreover from split(2) a(1) have "fst a \<le> fst l" by blast
    ultimately show "projr (key q) \<le> projr (key (zs ! 0))"
      using pair [of a] a(2) top by simp
  qed
  ultimately show ?thesis using xs by blast
qed

lemma sorted_reverse_empty: "sorted_reverse key [] = Inr []"
  by (simp add: sorted_reverse_def)

lemma sorted_reverse_Nil: "sorted_reverse key xs = Inr [] \<Longrightarrow> xs = []"
proof -
  assume a: "sorted_reverse key xs = Inr []"
  then obtain kxs where k: "keys_of key xs = Inr kxs"
    by (auto simp: sorted_reverse_def split: sum.splits)
  with a have "sort_key fst (rev kxs) = []"
    by (simp add: sorted_reverse_def)
  then have "kxs = []" by (simp add: sort_key_Nil_iff)
  with keys_of_Inr [OF k] show "xs = []" by simp
qed

lemma posix_basename_after_separator:
  assumes "CHR ''/'' \<notin> set b"
  shows "posix_basename (a @ CHR ''/'' # b) = b"
proof -
  have "takeWhile (\<lambda>c. c \<noteq> CHR ''/'') (rev b @ CHR ''/'' # rev a) =
          rev b @ takeWhile (\<lambda>c. c \<noteq> CHR ''/'') (CHR ''/'' # rev a)"
    using assms by (intro takeWhile_append2) auto
  then show ?thesis by (simp add: posix_basename_def)
qed

lemma posix_basename_plain:
  assumes "CHR ''/'' \<notin> set b"
  shows "posix_basename b = b"
proof -
  have tw: "takeWhile (\<lambda>c. c \<noteq> CHR ''/'') (rev b) = rev b"
    using assms by (intro takeWhile_eq_all_conv [THEN iffD2]) auto
  show ?thesis unfolding posix_basename_def by (simp only: tw rev_rev_ident)
qed

lemma posix_basename_join:
  assumes "CHR ''/'' \<notin> set b"
  shows "posix_basename (posix_join a b) = b"
proof -
  from assms have no_prefix: "\<not> prefix ''/'' b"
    by (cases b) auto
  show ?thesis
  proof (cases "a = []")
    case True
    with no_prefix assms show ?thesis by (simp add: posix_join_def posix_basename_plain)
  next
    case False
    show ?thesis
    proof (cases "last a = CHR ''/''")
      case True
      with False have "a = butlast a @ [CHR ''/'']"
        by (metis append_butlast_last_id)
      then have "a @ b = butlast a @ CHR ''/'' # b"
        by (metis append.assoc append_Cons append_Nil)
      then have "posix_basename (a @ b) = b"
        using posix_basename_after_separator [OF assms, of "butlast a"] by (simp only:)
      with no_prefix False True show ?thesis
        by (simp add: posix_join_def)
    next
      case sep: False
      with no_prefix False assms show ?thesis
        by (simp add: posix_join_def posix_basename_after_separator)
    qed
  qed
qed

lemma nt_splitdrive_no_drive:
  "\<not> unc_like p \<Longrightarrow> \<not> (2 \<le> length p \<and> p ! 1 = CHR '':'') \<Longrightarrow> nt_splitdrive p = ([], p)"
  by (auto simp: nt_splitdrive_def unc_like_def)

lemma nt_splitdrive_letter:
  "2 \<le> length p \<Longrightarrow> p ! 1 = CHR '':'' \<Longrightarrow> nt_splitdrive p = (take 2 p, drop 2 p)"
  by (simp add: nt_splitdrive_def nt_sep_def)

lemma nt_tail:
  assumes "\<forall>c \<in> set b. \<not> nt_sep c" and "pre = [] \<or> nt_sep (last pre)"
  shows "rev (takeWhile (\<lambda>c. \<not> nt_sep c) (rev (pre @ b))) = b"
proof (cases "pre = []")
  case True
  have "takeWhile (\<lambda>c. \<not> nt_sep c) (rev b) = rev b"
    using assms(1) by (intro takeWhile_eq_all_conv [THEN iffD2]) auto
  with True show ?thesis by (simp only: append_Nil rev_rev_ident)
next
  case False
  with assms(2) have l: "nt_sep (last pre)" by simp
  from False have "pre = butlast pre @ [last pre]" by simp
  then have "rev pre = last pre # rev (butlast pre)"
    by (metis rev.simps(2) rev_rev_ident rev_swap)
  then have r: "rev (pre @ b) = rev b @ last pre # rev (butlast pre)"
    by (simp only: rev_append)
  have t: "takeWhile (\<lambda>c. \<not> nt_sep c) (rev b @ last pre # rev (butlast pre)) =
          rev b @ takeWhile (\<lambda>c. \<not> nt_sep c) (last pre # rev (butlast pre))"
    using assms(1) by (intro takeWhile_append2) auto
  have e: "takeWhile (\<lambda>c. \<not> nt_sep c) (last pre # rev (butlast pre)) = []"
    using l by simp
  show ?thesis by (simp only: r t e append_Nil2 rev_rev_ident)
qed

lemma nt_basename_join:
  assumes b: "\<forall>c \<in> set b. \<not> nt_sep c \<and> c \<noteq> CHR '':''" and a: "\<not> unc_like a"
  shows "nt_basename (nt_join a b) = b"
proof -
  have "\<not> unc_like b"
    using b by (cases b; cases "tl b") (auto simp: unc_like_def)
  moreover have "\<not> (2 \<le> length b \<and> b ! 1 = CHR '':'')"
    using b by (cases b; cases "tl b") auto
  ultimately have sb: "nt_splitdrive b = ([], b)"
    by (rule nt_splitdrive_no_drive)
  have hb: "\<not> (b \<noteq> [] \<and> nt_sep (hd b))"
    using b by (cases b) auto
  have nosep: "\<forall>c \<in> set b. \<not> nt_sep c"
    using b by blast
  have bs: "nt_sep (CHR 0x5C)"
    by (simp add: nt_sep_def)
  show ?thesis
  proof (cases "2 \<le> length a \<and> a ! 1 = CHR '':''")
    case True
    then obtain c1 rest where a_eq: "a = c1 # CHR '':'' # rest"
      by (cases a; cases "tl a") auto
    define pre where "pre = (if rest \<noteq> [] \<and> \<not> nt_sep (last rest) then rest @ [CHR 0x5C] else rest)"
    have pre: "pre = [] \<or> nt_sep (last pre)"
      using bs by (auto simp: pre_def)
    have sa: "nt_splitdrive a = ([c1, CHR '':''], rest)"
      using nt_splitdrive_letter [of a] by (simp add: a_eq)
    have j: "nt_join a b = c1 # CHR '':'' # pre @ b"
      using hb by (auto simp: nt_join_def sa sb pre_def)
    have "nt_splitdrive (c1 # CHR '':'' # pre @ b) = ([c1, CHR '':''], pre @ b)"
      using nt_splitdrive_letter [of "c1 # CHR '':'' # pre @ b"] by simp
    then show ?thesis
      using nt_tail [OF nosep pre] by (simp add: nt_basename_def j)
  next
    case False
    define pre where "pre = (if a \<noteq> [] \<and> \<not> nt_sep (last a) then a @ [CHR 0x5C] else a)"
    have pre: "pre = [] \<or> nt_sep (last pre)"
      using bs by (auto simp: pre_def)
    have sa: "nt_splitdrive a = ([], a)"
      using a False by (rule nt_splitdrive_no_drive)
    have j: "nt_join a b = pre @ b"
      using hb by (auto simp: nt_join_def sa sb pre_def)
    have shape: "\<not> unc_like (pre @ b) \<and> \<not> (2 \<le> length (pre @ b) \<and> (pre @ b) ! 1 = CHR '':'')"
    proof (cases a)
      case Nil
      with \<open>\<not> unc_like b\<close> \<open>\<not> (2 \<le> length b \<and> b ! 1 = CHR '':'')\<close> show ?thesis
        by (simp add: pre_def)
    next
      case (Cons c1 a1)
      show ?thesis
      proof (cases a1)
        case Nil
        show ?thesis
        proof (cases b)
          case Nil
          with \<open>a = c1 # a1\<close> \<open>a1 = []\<close> show ?thesis
            by (simp add: pre_def unc_like_def nt_sep_def)
        next
          case (Cons d1 b1)
          with \<open>a = c1 # a1\<close> \<open>a1 = []\<close> b show ?thesis
            by (simp add: pre_def unc_like_def nt_sep_def)
        qed
      next
        case (Cons c2 a2)
        with \<open>a = c1 # a1\<close> False a show ?thesis
          by (simp add: pre_def unc_like_def)
      qed
    qed
    then have "nt_splitdrive (pre @ b) = ([], pre @ b)"
      by (intro nt_splitdrive_no_drive) simp_all
    then show ?thesis
      using nt_tail [OF nosep pre] by (simp add: nt_basename_def j)
  qed
qed

lemma keys_of_raises:
  "\<exists>x \<in> set xs. isl (key x) \<Longrightarrow>
   \<exists>x \<in> set xs. isl (key x) \<and> keys_of key xs = Inl (projl (key x))"
proof (induction xs)
  case Nil
  then show ?case by simp
next
  case (Cons x xs)
  show ?case
  proof (cases "key x")
    case (Inl e)
    then show ?thesis by simp
  next
    case (Inr k)
    with Cons.prems have "\<exists>y \<in> set xs. isl (key y)" by auto
    from Cons.IH [OF this] obtain y where "y \<in> set xs" "isl (key y)"
      "keys_of key xs = Inl (projl (key y))" by blast
    with Inr show ?thesis by (intro bexI [of _ y]) simp_all
  qed
qed

lemma first_newest_unique:
  fixes f :: "'a \<Rightarrow> 'k::linorder"
  assumes "b1 @ s1 # a1 = b2 @ s2 # a2"
    and "\<forall>q \<in> set b1. f q < f s1" and "\<forall>q \<in> set a1. f q \<le> f s1"
    and "\<forall>q \<in> set b2. f q < f s2" and "\<forall>q \<in> set a2. f q \<le> f s2"
  shows "b1 = b2 \<and> s1 = s2 \<and> a1 = a2"
  using assms
  by (fastforce simp: append_eq_append_conv2 Cons_eq_append_conv append_eq_Cons_conv)

lemma rip_dvd_returns:
  assumes "fst (rip_dvd title_index output_file_name output_directory
                  expected_file_size drive_letter x) = Inr p"
  shows "\<exists>mkv_files.
           popen x (rip_command drive_letter title_index output_directory) = Inr 0 \<and>
           sorted_reverse (getmtime x)
             (glob_after x (os_path_join (os_path x) output_directory ''*.mkv'')) = Inr mkv_files \<and>
           mkv_files \<noteq> [] \<and>
           p = os_path_join (os_path x) output_directory (output_file_name @ ''.mkv'') \<and>
           renamed (snd (rip_dvd title_index output_file_name output_directory
                           expected_file_size drive_letter x)) = [(mkv_files ! 0, p)]"
  using assms
  by (auto simp: rip_dvd_def Let_def
      split: sum.splits prod.splits if_splits option.splits process_error.splits)

lemma rip_dvd_exit_0:
  assumes "popen x (rip_command drive_letter title_index output_directory) = Inr 0"
  shows "fst (rip_dvd title_index output_file_name output_directory
                expected_file_size drive_letter x) =
           (case sorted_reverse (getmtime x)
                   (glob_after x (os_path_join (os_path x) output_directory ''*.mkv'')) of
              Inl e \<Rightarrow> Inl e
            | Inr mkv_files \<Rightarrow>
                if mkv_files = [] then Inl (Exception ''No MKV file found after ripping.'')
                else (case rename x (mkv_files ! 0)
                             (os_path_join (os_path x) output_directory (output_file_name @ ''.mkv'')) of
                        Some e \<Rightarrow> Inl (Exception (''Error renaming MKV file: '' @ str_exn e))
                      | None \<Rightarrow>
                          Inr (os_path_join (os_path x) output_directory (output_file_name @ ''.mkv''))))"
    and "renamed (snd (rip_dvd title_index output_file_name output_directory
                expected_file_size drive_letter x)) =
           (case sorted_reverse (getmtime x)
                   (glob_after x (os_path_join (os_path x) output_directory ''*.mkv'')) of
              Inl e \<Rightarrow> []
            | Inr mkv_files \<Rightarrow>
                if mkv_files = [] then []
                else (case rename x (mkv_files ! 0)
                             (os_path_join (os_path x) output_directory (output_file_name @ ''.mkv'')) of
                        Some e \<Rightarrow> []
                      | None \<Rightarrow>
                          [(mkv_files ! 0,
                            os_path_join (os_path x) output_directory (output_file_name @ ''.mkv''))]))"
  using assms
  by (simp_all add: rip_dvd_def Let_def split: sum.splits prod.splits option.splits)

text \<open>
  C7, as the code has it. With a process that has exited with 0, a listing that is not
  empty and modification times that can all be read, the listing has a first newest file
  (every file listed before it is strictly older, no file listed after it is newer), and
  \<open>rip_dvd\<close> renames that file and no other to the destination directory joined with the
  output name and \<open>.mkv\<close>, and returns that path, whatever the listed files are called;
  when the rename of that file raises, \<open>rip_dvd\<close> raises \<open>Error renaming MKV file: ...\<close>
  and nothing is renamed. With an empty listing it raises
  \<open>No MKV file found after ripping.\<close> When a modification time cannot be read, the
  exception of \<open>os.path.getmtime\<close> leaves \<open>rip_dvd\<close> as it is, and nothing is renamed.
  A path is returned in the first case only. The base name of the joined path is the
  output name with \<open>.mkv\<close> when the output name holds no separator of the platform:
  no slash under \<open>posixpath\<close>; under \<open>ntpath\<close> no slash, backslash or colon, for a
  destination directory that does not begin with two separators.
\<close>

theorem rip_renames_newest:
  "(popen x (rip_command drive_letter title_index output_directory) = Inr 0 \<and>
    glob_after x (os_path_join (os_path x) output_directory ''*.mkv'') \<noteq> [] \<and>
    (\<forall>q \<in> set (glob_after x (os_path_join (os_path x) output_directory ''*.mkv'')).
       \<not> isl (getmtime x q)) \<longrightarrow>
      (\<exists>before src after.
         glob_after x (os_path_join (os_path x) output_directory ''*.mkv'') = before @ src # after \<and>
         (\<forall>q \<in> set before. projr (getmtime x q) < projr (getmtime x src)) \<and>
         (\<forall>q \<in> set after. projr (getmtime x q) \<le> projr (getmtime x src)) \<and>
         (case rename x src (os_path_join (os_path x) output_directory (output_file_name @ ''.mkv'')) of
            None \<Rightarrow>
              fst (rip_dvd title_index output_file_name output_directory
                     expected_file_size drive_letter x) =
                Inr (os_path_join (os_path x) output_directory (output_file_name @ ''.mkv'')) \<and>
              renamed (snd (rip_dvd title_index output_file_name output_directory
                              expected_file_size drive_letter x)) =
                [(src, os_path_join (os_path x) output_directory (output_file_name @ ''.mkv''))]
          | Some e \<Rightarrow>
              fst (rip_dvd title_index output_file_name output_directory
                     expected_file_size drive_letter x) =
                Inl (Exception (''Error renaming MKV file: '' @ str_exn e)) \<and>
              renamed (snd (rip_dvd title_index output_file_name output_directory
                              expected_file_size drive_letter x)) = []))) \<and>
   (popen x (rip_command drive_letter title_index output_directory) = Inr 0 \<and>
    glob_after x (os_path_join (os_path x) output_directory ''*.mkv'') = [] \<longrightarrow>
      fst (rip_dvd title_index output_file_name output_directory
             expected_file_size drive_letter x) =
        Inl (Exception ''No MKV file found after ripping.'') \<and>
      renamed (snd (rip_dvd title_index output_file_name output_directory
                      expected_file_size drive_letter x)) = []) \<and>
   (popen x (rip_command drive_letter title_index output_directory) = Inr 0 \<and>
    (\<exists>q \<in> set (glob_after x (os_path_join (os_path x) output_directory ''*.mkv'')).
       isl (getmtime x q)) \<longrightarrow>
      (\<exists>q \<in> set (glob_after x (os_path_join (os_path x) output_directory ''*.mkv'')).
         isl (getmtime x q) \<and>
         fst (rip_dvd title_index output_file_name output_directory
                expected_file_size drive_letter x) = Inl (projl (getmtime x q))) \<and>
      renamed (snd (rip_dvd title_index output_file_name output_directory
                      expected_file_size drive_letter x)) = []) \<and>
   (\<forall>p. fst (rip_dvd title_index output_file_name output_directory
                expected_file_size drive_letter x) = Inr p \<longrightarrow>
      popen x (rip_command drive_letter title_index output_directory) = Inr 0 \<and>
      p = os_path_join (os_path x) output_directory (output_file_name @ ''.mkv'') \<and>
      (\<exists>before src after.
         glob_after x (os_path_join (os_path x) output_directory ''*.mkv'') = before @ src # after \<and>
         (\<forall>q \<in> set before. projr (getmtime x q) < projr (getmtime x src)) \<and>
         (\<forall>q \<in> set after. projr (getmtime x q) \<le> projr (getmtime x src)) \<and>
         rename x src p = None \<and>
         renamed (snd (rip_dvd title_index output_file_name output_directory
                         expected_file_size drive_letter x)) = [(src, p)])) \<and>
   (os_path x = Posixpath \<and> CHR ''/'' \<notin> set output_file_name \<longrightarrow>
      os_path_basename (os_path x)
        (os_path_join (os_path x) output_directory (output_file_name @ ''.mkv'')) =
      output_file_name @ ''.mkv'') \<and>
   (os_path x = Ntpath \<and> (\<forall>c \<in> set output_file_name. \<not> nt_sep c \<and> c \<noteq> CHR '':'') \<and>
    \<not> unc_like output_directory \<longrightarrow>
      os_path_basename (os_path x)
        (os_path_join (os_path x) output_directory (output_file_name @ ''.mkv'')) =
      output_file_name @ ''.mkv'')"
proof -
  let ?files = "glob_after x (os_path_join (os_path x) output_directory ''*.mkv'')"
  let ?new = "os_path_join (os_path x) output_directory (output_file_name @ ''.mkv'')"
  let ?R = "rip_dvd title_index output_file_name output_directory expected_file_size drive_letter x"
  let ?exit0 = "popen x (rip_command drive_letter title_index output_directory) = Inr 0"
  have newest: "\<exists>before src after.
         ?files = before @ src # after \<and>
         (\<forall>q \<in> set before. projr (getmtime x q) < projr (getmtime x src)) \<and>
         (\<forall>q \<in> set after. projr (getmtime x q) \<le> projr (getmtime x src)) \<and>
         (case rename x src ?new of
            None \<Rightarrow> fst ?R = Inr ?new \<and> renamed (snd ?R) = [(src, ?new)]
          | Some e \<Rightarrow> fst ?R = Inl (Exception (''Error renaming MKV file: '' @ str_exn e)) \<and>
                      renamed (snd ?R) = [])"
    if a: "?exit0 \<and> ?files \<noteq> [] \<and> (\<forall>q \<in> set ?files. \<not> isl (getmtime x q))"
  proof -
    from a have "keys_of (getmtime x) ?files = Inr (map (\<lambda>q. (projr (getmtime x q), q)) ?files)"
      by (intro keys_of_all_read) blast
    then obtain mkv_files where sorted: "sorted_reverse (getmtime x) ?files = Inr mkv_files"
      by (simp add: sorted_reverse_def)
    from a have files: "?files \<noteq> []" by blast
    with sorted have ne: "mkv_files \<noteq> []"
      using sorted_reverse_Nil by blast
    from sorted_reverse_first [OF sorted files] obtain before after where d:
      "?files = before @ (mkv_files ! 0) # after"
      "\<forall>q \<in> set before. projr (getmtime x q) < projr (getmtime x (mkv_files ! 0))"
      "\<forall>q \<in> set after. projr (getmtime x q) \<le> projr (getmtime x (mkv_files ! 0))"
      by blast
    from a have exit0: ?exit0 by blast
    have "case rename x (mkv_files ! 0) ?new of
            None \<Rightarrow> fst ?R = Inr ?new \<and> renamed (snd ?R) = [(mkv_files ! 0, ?new)]
          | Some e \<Rightarrow> fst ?R = Inl (Exception (''Error renaming MKV file: '' @ str_exn e)) \<and>
                      renamed (snd ?R) = []"
      unfolding rip_dvd_exit_0 [OF exit0] sorted using ne
      by (simp split: option.splits)
    with d show ?thesis by blast
  qed
  have empty: "fst ?R = Inl (Exception ''No MKV file found after ripping.'') \<and> renamed (snd ?R) = []"
    if a: "?exit0 \<and> ?files = []"
  proof -
    from a have exit0: ?exit0 and e: "?files = []" by blast+
    show ?thesis
      unfolding rip_dvd_exit_0 [OF exit0] e by (simp add: sorted_reverse_empty)
  qed
  have unread: "(\<exists>q \<in> set ?files. isl (getmtime x q) \<and> fst ?R = Inl (projl (getmtime x q))) \<and>
                renamed (snd ?R) = []"
    if a: "?exit0 \<and> (\<exists>q \<in> set ?files. isl (getmtime x q))"
  proof -
    from a have exit0: ?exit0 and "\<exists>q \<in> set ?files. isl (getmtime x q)" by blast+
    from keys_of_raises [OF this(2)] obtain q where q:
      "q \<in> set ?files" "isl (getmtime x q)"
      "keys_of (getmtime x) ?files = Inl (projl (getmtime x q))"
      by blast
    then have s: "sorted_reverse (getmtime x) ?files = Inl (projl (getmtime x q))"
      by (simp add: sorted_reverse_def)
    have "fst ?R = Inl (projl (getmtime x q)) \<and> renamed (snd ?R) = []"
      unfolding rip_dvd_exit_0 [OF exit0] s by simp
    with q(1,2) show ?thesis by blast
  qed
  have returned: "?exit0 \<and> p = ?new \<and>
      (\<exists>before src after.
         ?files = before @ src # after \<and>
         (\<forall>q \<in> set before. projr (getmtime x q) < projr (getmtime x src)) \<and>
         (\<forall>q \<in> set after. projr (getmtime x q) \<le> projr (getmtime x src)) \<and>
         rename x src p = None \<and>
         renamed (snd ?R) = [(src, p)])"
    if ret: "fst ?R = Inr p" for p
  proof -
    from rip_dvd_returns [OF ret] obtain mkv_files where r:
      "?exit0"
      "sorted_reverse (getmtime x) ?files = Inr mkv_files"
      "mkv_files \<noteq> []"
      "p = ?new"
      "renamed (snd ?R) = [(mkv_files ! 0, p)]"
      by blast
    have files: "?files \<noteq> []"
      using r(2,3) by (auto simp: sorted_reverse_empty)
    have "rename x (mkv_files ! 0) p = None"
      using ret r(3,4) unfolding rip_dvd_exit_0 [OF r(1)] r(2)
      by (simp split: option.splits)
    with sorted_reverse_first [OF r(2) files] r(1,4,5) show ?thesis
      by blast
  qed
  have posix: "os_path_basename (os_path x) ?new = output_file_name @ ''.mkv''"
    if a: "os_path x = Posixpath \<and> CHR ''/'' \<notin> set output_file_name"
  proof -
    from a have "CHR ''/'' \<notin> set (output_file_name @ ''.mkv'')" by simp
    from posix_basename_join [OF this, of output_directory] a show ?thesis
      by (simp add: os_path_join_def os_path_basename_def)
  qed
  have nt: "os_path_basename (os_path x) ?new = output_file_name @ ''.mkv''"
    if a: "os_path x = Ntpath \<and> (\<forall>c \<in> set output_file_name. \<not> nt_sep c \<and> c \<noteq> CHR '':'') \<and>
           \<not> unc_like output_directory"
  proof -
    from a have "\<forall>c \<in> set (output_file_name @ ''.mkv''). \<not> nt_sep c \<and> c \<noteq> CHR '':''"
      by (simp add: nt_sep_def)
    moreover from a have "\<not> unc_like output_directory" by blast
    ultimately have "nt_basename (nt_join output_directory (output_file_name @ ''.mkv'')) =
                       output_file_name @ ''.mkv''"
      by (rule nt_basename_join)
    with a show ?thesis
      by (simp add: os_path_join_def os_path_basename_def)
  qed
  from newest empty unread returned posix nt show ?thesis
    by (intro conjI impI allI) blast+
qed

lemmas nt_eval =
  nt_join_def nt_basename_def nt_splitdrive_def nt_sep_def unc_like_def nt_dir_def nt_files_def
  nt_mtimes_def nt_world_def

theorem rip_renames_newest_witness:
  "fst (rip_dvd ''1'' ''film'' ''temp/D'' 1000 ''D'' (rip_world 0 three_files three_mtimes)) =
     Inr ''temp/D/film.mkv'' \<and>
   renamed (snd (rip_dvd ''1'' ''film'' ''temp/D'' 1000 ''D''
                   (rip_world 0 three_files three_mtimes))) =
     [(''temp/D/B1_t01.mkv'', ''temp/D/film.mkv'')] \<and>
   os_path_basename Posixpath ''temp/D/film.mkv'' = ''film.mkv'' \<and>
   fst (rip_dvd ''1'' ''film'' ''temp/D'' 1000 ''D'' (rip_world 0 [] three_mtimes)) =
     Inl (Exception ''No MKV file found after ripping.'') \<and>
   fst (rip_dvd ''1'' ''film'' ''temp/D'' 1000 ''D'' locked_world) =
     Inl (Exception ''Error renaming MKV file: [WinError 32] The file is in use'') \<and>
   renamed (snd (rip_dvd ''1'' ''film'' ''temp/D'' 1000 ''D'' locked_world)) = [] \<and>
   fst (rip_dvd ''1'' ''film'' ''temp/D'' 1000 ''D'' stat_fails_world) =
     Inl (OSError ''[Errno 2] No such file or directory'') \<and>
   fst (rip_dvd ''1'' ''film'' nt_dir 1000 ''D'' nt_world) =
     Inr (nt_dir @ [CHR 0x5C] @ ''film.mkv'') \<and>
   renamed (snd (rip_dvd ''1'' ''film'' nt_dir 1000 ''D'' nt_world)) =
     [(nt_dir @ [CHR 0x5C] @ ''B1_t01.mkv'', nt_dir @ [CHR 0x5C] @ ''film.mkv'')] \<and>
   os_path_basename Ntpath (nt_dir @ [CHR 0x5C] @ ''film.mkv'') = ''film.mkv''"
proof -
  let ?x = "rip_world 0 three_files three_mtimes"
  \<comment> \<open>the rip that returns\<close>
  have "fst (rip_dvd ''1'' ''film'' ''temp/D'' 1000 ''D'' ?x) = Inr ''temp/D/film.mkv''"
    by (simp add: rip_eval)
  with rip_renames_newest [where x = ?x and title_index = "''1''" and output_file_name = "''film''"
      and output_directory = "''temp/D''" and expected_file_size = 1000 and drive_letter = "''D''",
      THEN conjunct2, THEN conjunct2, THEN conjunct2, THEN conjunct1, rule_format,
      of "''temp/D/film.mkv''"]
  obtain before src after where s:
    "glob_after ?x (os_path_join (os_path ?x) ''temp/D'' ''*.mkv'') = before @ src # after"
    "\<forall>q \<in> set before. projr (getmtime ?x q) < projr (getmtime ?x src)"
    "\<forall>q \<in> set after. projr (getmtime ?x q) \<le> projr (getmtime ?x src)"
    "renamed (snd (rip_dvd ''1'' ''film'' ''temp/D'' 1000 ''D'' ?x)) = [(src, ''temp/D/film.mkv'')]"
    by blast
  have "before @ src # after = [''temp/D/A1_t00.mkv''] @ ''temp/D/B1_t01.mkv'' # [''temp/D/C1_t02.mkv'']"
    using s(1) by (simp add: rip_world_def three_files_def)
  from first_newest_unique [OF this s(2,3)] have "src = ''temp/D/B1_t01.mkv''"
    by (simp add: rip_world_def three_mtimes_def)
  with s(4) have success:
    "renamed (snd (rip_dvd ''1'' ''film'' ''temp/D'' 1000 ''D'' ?x)) =
       [(''temp/D/B1_t01.mkv'', ''temp/D/film.mkv'')]"
    by simp
  have returned: "fst (rip_dvd ''1'' ''film'' ''temp/D'' 1000 ''D'' ?x) = Inr ''temp/D/film.mkv''"
    by (simp add: rip_eval)
  \<comment> \<open>the base name\<close>
  have "os_path ?x = Posixpath \<and> CHR ''/'' \<notin> set ''film''"
    by (simp add: rip_world_def)
  with rip_renames_newest [where x = ?x and output_file_name = "''film''"
      and output_directory = "''temp/D''",
      THEN conjunct2, THEN conjunct2, THEN conjunct2, THEN conjunct2, THEN conjunct1]
  have "os_path_basename (os_path ?x) (os_path_join (os_path ?x) ''temp/D'' (''film'' @ ''.mkv'')) =
          ''film'' @ ''.mkv''"
    by blast
  then have base: "os_path_basename Posixpath ''temp/D/film.mkv'' = ''film.mkv''"
    by (simp add: rip_world_def os_path_join_def posix_join_def)
  \<comment> \<open>no file\<close>
  let ?e = "rip_world 0 [] three_mtimes"
  have "popen ?e (rip_command ''D'' ''1'' ''temp/D'') = Inr 0 \<and>
        glob_after ?e (os_path_join (os_path ?e) ''temp/D'' ''*.mkv'') = []"
    by (simp add: rip_world_def)
  with rip_renames_newest [where x = ?e and title_index = "''1''" and output_file_name = "''film''"
      and output_directory = "''temp/D''" and expected_file_size = 1000 and drive_letter = "''D''",
      THEN conjunct2, THEN conjunct1]
  have none: "fst (rip_dvd ''1'' ''film'' ''temp/D'' 1000 ''D'' ?e) =
                Inl (Exception ''No MKV file found after ripping.'')"
    by blast
  \<comment> \<open>the newest file cannot be renamed\<close>
  have "popen locked_world (rip_command ''D'' ''1'' ''temp/D'') = Inr 0 \<and>
        glob_after locked_world (os_path_join (os_path locked_world) ''temp/D'' ''*.mkv'') \<noteq> [] \<and>
        (\<forall>q \<in> set (glob_after locked_world
                      (os_path_join (os_path locked_world) ''temp/D'' ''*.mkv'')).
           \<not> isl (getmtime locked_world q))"
    by (simp add: locked_world_def rip_world_def three_files_def)
  with rip_renames_newest [where x = locked_world and title_index = "''1''"
      and output_file_name = "''film''" and output_directory = "''temp/D''"
      and expected_file_size = 1000 and drive_letter = "''D''", THEN conjunct1]
  obtain before src after where l:
    "glob_after locked_world (os_path_join (os_path locked_world) ''temp/D'' ''*.mkv'') =
       before @ src # after"
    "\<forall>q \<in> set before. projr (getmtime locked_world q) < projr (getmtime locked_world src)"
    "\<forall>q \<in> set after. projr (getmtime locked_world q) \<le> projr (getmtime locked_world src)"
    "case rename locked_world src
            (os_path_join (os_path locked_world) ''temp/D'' (''film'' @ ''.mkv'')) of
       None \<Rightarrow>
         fst (rip_dvd ''1'' ''film'' ''temp/D'' 1000 ''D'' locked_world) =
           Inr (os_path_join (os_path locked_world) ''temp/D'' (''film'' @ ''.mkv'')) \<and>
         renamed (snd (rip_dvd ''1'' ''film'' ''temp/D'' 1000 ''D'' locked_world)) =
           [(src, os_path_join (os_path locked_world) ''temp/D'' (''film'' @ ''.mkv''))]
     | Some e \<Rightarrow>
         fst (rip_dvd ''1'' ''film'' ''temp/D'' 1000 ''D'' locked_world) =
           Inl (Exception (''Error renaming MKV file: '' @ str_exn e)) \<and>
         renamed (snd (rip_dvd ''1'' ''film'' ''temp/D'' 1000 ''D'' locked_world)) = []"
    by blast
  have "before @ src # after = [''temp/D/A1_t00.mkv''] @ ''temp/D/B1_t01.mkv'' # [''temp/D/C1_t02.mkv'']"
    using l(1) by (simp add: locked_world_def rip_world_def three_files_def)
  from first_newest_unique [OF this l(2,3)] have "src = ''temp/D/B1_t01.mkv''"
    by (simp add: locked_world_def rip_world_def three_mtimes_def)
  with l(4) have locked:
    "fst (rip_dvd ''1'' ''film'' ''temp/D'' 1000 ''D'' locked_world) =
       Inl (Exception ''Error renaming MKV file: [WinError 32] The file is in use'') \<and>
     renamed (snd (rip_dvd ''1'' ''film'' ''temp/D'' 1000 ''D'' locked_world)) = []"
    by (simp add: locked_world_def)
  \<comment> \<open>a modification time cannot be read\<close>
  have "popen stat_fails_world (rip_command ''D'' ''1'' ''temp/D'') = Inr 0 \<and>
        (\<exists>q \<in> set (glob_after stat_fails_world
                      (os_path_join (os_path stat_fails_world) ''temp/D'' ''*.mkv'')).
           isl (getmtime stat_fails_world q))"
    by (simp add: stat_fails_world_def rip_world_def three_files_def)
  with rip_renames_newest [where x = stat_fails_world and title_index = "''1''"
      and output_file_name = "''film''" and output_directory = "''temp/D''"
      and expected_file_size = 1000 and drive_letter = "''D''",
      THEN conjunct2, THEN conjunct2, THEN conjunct1]
  obtain q where q: "isl (getmtime stat_fails_world q)"
    "fst (rip_dvd ''1'' ''film'' ''temp/D'' 1000 ''D'' stat_fails_world) =
       Inl (projl (getmtime stat_fails_world q))"
    by blast
  from q(1) have "q = ''temp/D/C1_t02.mkv''"
    by (simp add: stat_fails_world_def split: if_splits)
  with q(2) have stat:
    "fst (rip_dvd ''1'' ''film'' ''temp/D'' 1000 ''D'' stat_fails_world) =
       Inl (OSError ''[Errno 2] No such file or directory'')"
    by (simp add: stat_fails_world_def)
  \<comment> \<open>on Windows\<close>
  have new: "os_path_join Ntpath nt_dir (''film'' @ ''.mkv'') = nt_dir @ [CHR 0x5C] @ ''film.mkv''"
    by (simp add: os_path_join_def nt_eval)
  have "popen nt_world (rip_command ''D'' ''1'' nt_dir) = Inr 0 \<and>
        glob_after nt_world (os_path_join (os_path nt_world) nt_dir ''*.mkv'') \<noteq> [] \<and>
        (\<forall>q \<in> set (glob_after nt_world (os_path_join (os_path nt_world) nt_dir ''*.mkv'')).
           \<not> isl (getmtime nt_world q))"
    by (simp add: nt_world_def nt_files_def)
  with rip_renames_newest [where x = nt_world and title_index = "''1''"
      and output_file_name = "''film''" and output_directory = nt_dir
      and expected_file_size = 1000 and drive_letter = "''D''", THEN conjunct1]
  obtain before src after where n:
    "glob_after nt_world (os_path_join (os_path nt_world) nt_dir ''*.mkv'') = before @ src # after"
    "\<forall>q \<in> set before. projr (getmtime nt_world q) < projr (getmtime nt_world src)"
    "\<forall>q \<in> set after. projr (getmtime nt_world q) \<le> projr (getmtime nt_world src)"
    "case rename nt_world src (os_path_join (os_path nt_world) nt_dir (''film'' @ ''.mkv'')) of
       None \<Rightarrow>
         fst (rip_dvd ''1'' ''film'' nt_dir 1000 ''D'' nt_world) =
           Inr (os_path_join (os_path nt_world) nt_dir (''film'' @ ''.mkv'')) \<and>
         renamed (snd (rip_dvd ''1'' ''film'' nt_dir 1000 ''D'' nt_world)) =
           [(src, os_path_join (os_path nt_world) nt_dir (''film'' @ ''.mkv''))]
     | Some e \<Rightarrow>
         fst (rip_dvd ''1'' ''film'' nt_dir 1000 ''D'' nt_world) =
           Inl (Exception (''Error renaming MKV file: '' @ str_exn e)) \<and>
         renamed (snd (rip_dvd ''1'' ''film'' nt_dir 1000 ''D'' nt_world)) = []"
    by blast
  have "before @ src # after =
          [nt_dir @ [CHR 0x5C] @ ''A1_t00.mkv''] @ (nt_dir @ [CHR 0x5C] @ ''B1_t01.mkv'') # []"
    using n(1) by (simp add: nt_world_def nt_files_def)
  from first_newest_unique [OF this n(2,3)]
  have src: "src = nt_dir @ [CHR 0x5C] @ ''B1_t01.mkv''"
    by (simp add: nt_world_def nt_mtimes_def nt_dir_def)
  have os: "os_path nt_world = Ntpath" and ren: "rename nt_world = (\<lambda>src dst. None)"
    by (simp_all add: nt_world_def)
  from n(4) have windows:
    "fst (rip_dvd ''1'' ''film'' nt_dir 1000 ''D'' nt_world) =
       Inr (nt_dir @ [CHR 0x5C] @ ''film.mkv'') \<and>
     renamed (snd (rip_dvd ''1'' ''film'' nt_dir 1000 ''D'' nt_world)) =
       [(nt_dir @ [CHR 0x5C] @ ''B1_t01.mkv'', nt_dir @ [CHR 0x5C] @ ''film.mkv'')]"
    unfolding os ren new src by simp
  have "os_path nt_world = Ntpath \<and> (\<forall>c \<in> set ''film''. \<not> nt_sep c \<and> c \<noteq> CHR '':'') \<and>
        \<not> unc_like nt_dir"
    by (simp add: nt_world_def nt_sep_def unc_like_def nt_dir_def)
  with rip_renames_newest [where x = nt_world and output_file_name = "''film''"
      and output_directory = nt_dir,
      THEN conjunct2, THEN conjunct2, THEN conjunct2, THEN conjunct2, THEN conjunct2]
  have "os_path_basename (os_path nt_world)
          (os_path_join (os_path nt_world) nt_dir (''film'' @ ''.mkv'')) = ''film'' @ ''.mkv''"
    by blast
  then have nt_base: "os_path_basename Ntpath (nt_dir @ [CHR 0x5C] @ ''film.mkv'') = ''film.mkv''"
    unfolding os new by simp
  from returned success base none locked stat windows nt_base show ?thesis
    by blast
qed

text \<open>
  Where the claim fails. An output name with a slash, or on Windows with a drive colon
  or a backslash: the rip returns, and the base name of the returned path is \<open>film.mkv\<close>,
  not the output name with \<open>.mkv\<close> (with the colon the file even leaves the destination
  directory). On Windows a destination that is the name of a host alone: the base name
  is empty. And a process that exits with 0 and leaves three files, one of which is gone
  when its modification time is read: nothing is renamed, and the exception is the
  \<open>OSError\<close> of \<open>os.path.getmtime\<close>.
\<close>

theorem base_name_loses_directory_part:
  "fst (rip_dvd ''1'' ''extras/film'' ''temp/D'' 1000 ''D''
          (rip_world 0 three_files three_mtimes)) = Inr ''temp/D/extras/film.mkv'' \<and>
   renamed (snd (rip_dvd ''1'' ''extras/film'' ''temp/D'' 1000 ''D''
          (rip_world 0 three_files three_mtimes)))
     = [(''temp/D/B1_t01.mkv'', ''temp/D/extras/film.mkv'')] \<and>
   os_path_basename Posixpath ''temp/D/extras/film.mkv'' = ''film.mkv'' \<and>
   os_path_basename Posixpath ''temp/D/extras/film.mkv'' \<noteq> ''extras/film'' @ ''.mkv'' \<and>
   fst (rip_dvd ''1'' ''C:film'' nt_dir 1000 ''D'' nt_world) = Inr ''C:film.mkv'' \<and>
   renamed (snd (rip_dvd ''1'' ''C:film'' nt_dir 1000 ''D'' nt_world)) =
     [(nt_dir @ [CHR 0x5C] @ ''B1_t01.mkv'', ''C:film.mkv'')] \<and>
   os_path_basename Ntpath ''C:film.mkv'' = ''film.mkv'' \<and>
   os_path_basename Ntpath ''C:film.mkv'' \<noteq> ''C:film'' @ ''.mkv'' \<and>
   os_path_basename Ntpath
     (os_path_join Ntpath nt_dir ((''extras'' @ [CHR 0x5C] @ ''film'') @ ''.mkv'')) = ''film.mkv'' \<and>
   os_path_basename Ntpath
     (os_path_join Ntpath ([CHR 0x5C, CHR 0x5C] @ ''host'') (''film'' @ ''.mkv'')) = [] \<and>
   popen stat_fails_world (rip_command ''D'' ''1'' ''temp/D'') = Inr 0 \<and>
   glob_after stat_fails_world (os_path_join Posixpath ''temp/D'' ''*.mkv'') = three_files \<and>
   rip_dvd ''1'' ''film'' ''temp/D'' 1000 ''D'' stat_fails_world =
     (Inl (OSError ''[Errno 2] No such file or directory''),
      \<lparr>spawned = [[''./makemkvcon64.exe'', ''-r'', ''mkv'', ''dev:D:'', ''1'', ''temp/D'']],
       fx_bar = Some \<lparr>bar_total = 1000, bar_n = 1000, bar_shown = [0, 300, 900, 1000],
                      bar_closed = True\<rparr>,
       thread_output = [], renamed = [], monitors_running = 0\<rparr>)"
proof -
  have unc: "os_path_basename Ntpath
     (os_path_join Ntpath ([CHR 0x5C, CHR 0x5C] @ ''host'') (''film'' @ ''.mkv'')) = []"
    by code_simp
  have posix: "fst (rip_dvd ''1'' ''extras/film'' ''temp/D'' 1000 ''D''
          (rip_world 0 three_files three_mtimes)) = Inr ''temp/D/extras/film.mkv'' \<and>
   renamed (snd (rip_dvd ''1'' ''extras/film'' ''temp/D'' 1000 ''D''
          (rip_world 0 three_files three_mtimes)))
     = [(''temp/D/B1_t01.mkv'', ''temp/D/extras/film.mkv'')] \<and>
   os_path_basename Posixpath ''temp/D/extras/film.mkv'' = ''film.mkv'' \<and>
   os_path_basename Posixpath ''temp/D/extras/film.mkv'' \<noteq> ''extras/film'' @ ''.mkv''"
    by (simp add: rip_eval)
  have colon: "fst (rip_dvd ''1'' ''C:film'' nt_dir 1000 ''D'' nt_world) = Inr ''C:film.mkv'' \<and>
   renamed (snd (rip_dvd ''1'' ''C:film'' nt_dir 1000 ''D'' nt_world)) =
     [(nt_dir @ [CHR 0x5C] @ ''B1_t01.mkv'', ''C:film.mkv'')] \<and>
   os_path_basename Ntpath ''C:film.mkv'' = ''film.mkv'' \<and>
   os_path_basename Ntpath ''C:film.mkv'' \<noteq> ''C:film'' @ ''.mkv''"
    by (simp add: rip_eval nt_eval)
  have backslash: "os_path_basename Ntpath
     (os_path_join Ntpath nt_dir ((''extras'' @ [CHR 0x5C] @ ''film'') @ ''.mkv'')) = ''film.mkv''"
    by (simp add: os_path_join_def os_path_basename_def nt_eval)
  have stat: "popen stat_fails_world (rip_command ''D'' ''1'' ''temp/D'') = Inr 0 \<and>
   glob_after stat_fails_world (os_path_join Posixpath ''temp/D'' ''*.mkv'') = three_files \<and>
   rip_dvd ''1'' ''film'' ''temp/D'' 1000 ''D'' stat_fails_world =
     (Inl (OSError ''[Errno 2] No such file or directory''),
      \<lparr>spawned = [[''./makemkvcon64.exe'', ''-r'', ''mkv'', ''dev:D:'', ''1'', ''temp/D'']],
       fx_bar = Some \<lparr>bar_total = 1000, bar_n = 1000, bar_shown = [0, 300, 900, 1000],
                      bar_closed = True\<rparr>,
       thread_output = [], renamed = [], monitors_running = 0\<rparr>)"
    by (simp add: rip_eval stat_fails_world_def)
  from posix colon backslash unc stat show ?thesis
    by blast
qed

section \<open>The rip under the retrying executor\<close>

text \<open>
  C3 fails on the code. \<open>run\<close> itself does what the claim says: after the third failure
  \<open>error_handler\<close> prints the report, posts it once under \<open>Movie ERROR\<close> and calls
  \<open>sys.exit(1)\<close>, and the function has been called three times (\<open>run_exhausted_effects\<close>,
  \<open>run_from_invoked\<close>). But the process ends only when every thread that is not a daemon
  has ended, and \<open>rip_dvd\<close> starts its monitor thread on line 109 with nothing that would
  set the stop event when an exception leaves lines 112 to 115. In the first run below
  the output of the process cannot be decoded, at each of the three attempts: \<open>run\<close>
  exits with status 1 and one report is posted, while three monitor threads stay in
  their loop, so the process does not end. In the second run the process ends with exit
  code 1 at each attempt: every monitor has been joined, and the process ends.
\<close>

theorem exit_waits_for_leaked_monitors:
  "run (rip_stage garbled_rip ''1'' ''film'' ''temp/D'' 1000 ''D'') (fresh_world (0, 0)) =
     (Exited 1,
      \<lparr>env = (3, 3),
       console = [''Error running: rip_dvd'' @ [CHR 0x0A] @ ''Attempts: 3'' @ [CHR 0x0A] @
                  ''Error: charmap codec cannot decode byte 0x81''],
       requests = [(''Movie ERROR'',
                    ''Error running: rip_dvd'' @ [CHR 0x0A] @ ''Attempts: 3'' @ [CHR 0x0A] @
                    ''Error: charmap codec cannot decode byte 0x81'')],
       network = [],
       invoked = [''rip_dvd'', ''rip_dvd'', ''rip_dvd'']\<rparr>) \<and>
   \<not> process_ends (snd (run (rip_stage garbled_rip ''1'' ''film'' ''temp/D'' 1000 ''D'')
                           (fresh_world (0, 0)))) \<and>
   run (rip_stage failing_rip ''1'' ''film'' ''temp/D'' 1000 ''D'') (fresh_world (0, 0)) =
     (Exited 1,
      \<lparr>env = (3, 0),
       console = [''Error running: rip_dvd'' @ [CHR 0x0A] @ ''Attempts: 3'' @ [CHR 0x0A] @
                  ''Error: MakeMKV returned an error during ripping.''],
       requests = [(''Movie ERROR'',
                    ''Error running: rip_dvd'' @ [CHR 0x0A] @ ''Attempts: 3'' @ [CHR 0x0A] @
                    ''Error: MakeMKV returned an error during ripping.'')],
       network = [],
       invoked = [''rip_dvd'', ''rip_dvd'', ''rip_dvd'']\<rparr>) \<and>
   process_ends (snd (run (rip_stage failing_rip ''1'' ''film'' ''temp/D'' 1000 ''D'')
                         (fresh_world (0, 0))))"
proof -
  have three: "ATTEMPTS = Suc (Suc (Suc 0))"
    by (simp add: ATTEMPTS_def)
  let ?g = "rip_stage garbled_rip ''1'' ''film'' ''temp/D'' 1000 ''D''"
  let ?f = "rip_stage failing_rip ''1'' ''film'' ''temp/D'' 1000 ''D''"
  have g_call: "fn_call ?g (calls, monitors) = (Inl undecodable, (Suc calls, Suc monitors))"
    for calls monitors
    by (simp add: rip_stage_def rip_eval garbled_rip_def)
  have f_call: "fn_call ?f (calls, monitors) =
                  (Inl (Exception ''MakeMKV returned an error during ripping.''), (Suc calls, monitors))"
    for calls monitors
    by (simp add: rip_stage_def rip_eval failing_rip_def)
  have g_name: "fn_name ?g = ''rip_dvd''" and f_name: "fn_name ?f = ''rip_dvd''"
    by (simp_all add: rip_stage_def)
  have g_fails: "\<forall>j < ATTEMPTS. isl (attempt ?g j (env (fresh_world (0, 0))))"
    by (simp add: three less_Suc_eq attempt_def fresh_world_def g_call)
  have f_fails: "\<forall>j < ATTEMPTS. isl (attempt ?f j (env (fresh_world (0, 0))))"
    by (simp add: three less_Suc_eq attempt_def fresh_world_def f_call)
  have g_run: "run ?g (fresh_world (0, 0)) =
     (Exited 1,
      \<lparr>env = (3, 3),
       console = [''Error running: rip_dvd'' @ [CHR 0x0A] @ ''Attempts: 3'' @ [CHR 0x0A] @
                  ''Error: charmap codec cannot decode byte 0x81''],
       requests = [(''Movie ERROR'',
                    ''Error running: rip_dvd'' @ [CHR 0x0A] @ ''Attempts: 3'' @ [CHR 0x0A] @
                    ''Error: charmap codec cannot decode byte 0x81'')],
       network = [],
       invoked = [''rip_dvd'', ''rip_dvd'', ''rip_dvd'']\<rparr>)"
    unfolding run_exhausted [OF g_fails]
    by (simp add: three attempt_def fresh_world_def g_call g_name failure_report_text
        undecodable_def error_handler_def send_message_def print_line_def Let_def)
  have f_run: "run ?f (fresh_world (0, 0)) =
     (Exited 1,
      \<lparr>env = (3, 0),
       console = [''Error running: rip_dvd'' @ [CHR 0x0A] @ ''Attempts: 3'' @ [CHR 0x0A] @
                  ''Error: MakeMKV returned an error during ripping.''],
       requests = [(''Movie ERROR'',
                    ''Error running: rip_dvd'' @ [CHR 0x0A] @ ''Attempts: 3'' @ [CHR 0x0A] @
                    ''Error: MakeMKV returned an error during ripping.'')],
       network = [],
       invoked = [''rip_dvd'', ''rip_dvd'', ''rip_dvd'']\<rparr>)"
    unfolding run_exhausted [OF f_fails]
    by (simp add: three attempt_def fresh_world_def f_call f_name failure_report_text
        error_handler_def send_message_def print_line_def Let_def)
  have "\<not> process_ends (snd (run ?g (fresh_world (0, 0))))"
    unfolding g_run by (simp add: process_ends_def)
  moreover have "process_ends (snd (run ?f (fresh_world (0, 0))))"
    unfolding f_run by (simp add: process_ends_def)
  ultimately show ?thesis
    using g_run f_run by blast
qed

end
